theory Spec2Isabelle
  imports Main "HOL-Library.Multiset" "HOL-Library.Sublist"
begin

section \<open>Strings as the program sees them\<close>

text \<open>
  A JavaScript string is modelled as a \<^typ>\<open>string\<close>: one \<^typ>\<open>char\<close> per code unit, for
  code units below 256 (ASCII and Latin-1). Code units above that are outside the model.

  \<open>isSpace\<close> is the class \<open>\s\<close> of a regular expression, which is also what
  \<open>String.prototype.trim\<close> strips: tab, line feed, vertical tab, form feed, carriage
  return, space and the no-break space. \<open>isWordChar\<close> is \<open>\w\<close>, \<open>isWordStart\<close> is
  \<open>[a-zA-Z_]\<close>, and \<open>isLineTerminator\<close> is what \<open>.\<close> refuses to match without the
  \<open>s\<close> flag.
\<close>

definition isSpace :: "char \<Rightarrow> bool" where
  "isSpace c = (c \<in> set [CHR 0x09, CHR 0x0A, CHR 0x0B, CHR 0x0C, CHR 0x0D, CHR 0x20, CHR 0xA0])"

definition isLineTerminator :: "char \<Rightarrow> bool" where
  "isLineTerminator c = (c = CHR 0x0A \<or> c = CHR 0x0D)"

definition codeUnit :: "char \<Rightarrow> nat" where
  "codeUnit c = of_char c"

definition isUpperAscii :: "char \<Rightarrow> bool" where
  "isUpperAscii c = (65 \<le> codeUnit c \<and> codeUnit c \<le> 90)"

definition isLowerAscii :: "char \<Rightarrow> bool" where
  "isLowerAscii c = (97 \<le> codeUnit c \<and> codeUnit c \<le> 122)"

definition isDigit :: "char \<Rightarrow> bool" where
  "isDigit c = (48 \<le> codeUnit c \<and> codeUnit c \<le> 57)"

definition isWordStart :: "char \<Rightarrow> bool" where
  "isWordStart c = (isLowerAscii c \<or> isUpperAscii c \<or> c = CHR ''_'')"

definition isWordChar :: "char \<Rightarrow> bool" where
  "isWordChar c = (isWordStart c \<or> isDigit c)"

definition trim :: "string \<Rightarrow> string" where
  "trim s = rev (dropWhile isSpace (rev (dropWhile isSpace s)))"

text \<open>
  \<open>toLowerCase\<close> on code units below 256: the ASCII capitals, and the Latin-1 capitals
  0xC0 to 0xDE except the multiplication sign 0xD7, move up by 32.
\<close>

definition lowerChar :: "char \<Rightarrow> char" where
  "lowerChar c =
     (let n = codeUnit c
      in if (65 \<le> n \<and> n \<le> 90) \<or> (192 \<le> n \<and> n \<le> 222 \<and> n \<noteq> 215)
         then char_of (n + 32) else c)"

definition toLowerCase :: "string \<Rightarrow> string" where
  "toLowerCase s = map lowerChar s"

text \<open>\<open>s.substring(0, n)\<close> for \<open>n \<ge> 0\<close>.\<close>

definition substring0 :: "nat \<Rightarrow> string \<Rightarrow> string" where
  "substring0 n s = take n s"

text \<open>\<open>startsWith p s\<close>: the rest of \<open>s\<close> after the literal \<open>p\<close>, when \<open>s\<close> starts with it.\<close>

fun stripPrefix :: "string \<Rightarrow> string \<Rightarrow> string option" where
  "stripPrefix [] s = Some s"
| "stripPrefix (p # ps) [] = None"
| "stripPrefix (p # ps) (c # cs) = (if p = c then stripPrefix ps cs else None)"

text \<open>\<open>s.includes(sub)\<close>: \<open>sub\<close> occurs in \<open>s\<close> at some position.\<close>

fun jsIncludes :: "string \<Rightarrow> string \<Rightarrow> bool" where
  "jsIncludes [] sub = (sub = [])"
| "jsIncludes (c # cs) sub = (stripPrefix sub (c # cs) \<noteq> None \<or> jsIncludes cs sub)"

section \<open>Data model (types.ts)\<close>

text \<open>
  The interfaces of the repository, one record each; an optional field \<open>f?: T\<close> is a
  \<open>T option\<close>. Field names carry a prefix where several interfaces share one (\<open>id\<close>,
  \<open>name\<close>, \<open>type\<close>, \<open>userFeedback\<close>) or where the name is reserved (\<open>notes\<close>,
  \<open>keywords\<close>, \<open>text\<close>, \<open>size\<close>, \<open>error\<close>).
\<close>

record UserFeedback =
  status :: "string option"
  fb_notes :: "string option"
  lastUpdated :: string
  finalAdoptedText :: "string option"

datatype Priority = High | Medium | Low

record SuggestedChange =
  sc_id :: string
  document_section :: string
  current_status_summary :: string
  austrac_relevance :: string
  suggested_modification :: string
  priority :: Priority
  sc_userFeedback :: "UserFeedback option"
  source_document_name :: "string option"

record ActionPlanItem =
  ap_id :: string
  task :: string
  responsible :: string
  timeline :: string
  priority_level :: Priority
  ap_userFeedback :: "UserFeedback option"

text \<open>
  \<open>groupedSuggestions\<close> is a \<open>Record<string, SuggestedChange[]>\<close>: the keys in the order
  they were first written, each with its array.
\<close>

type_synonym GroupedSuggestions = "(string \<times> SuggestedChange list) list"

record ChallengeAnalysisResult =
  suggested_changes :: "SuggestedChange list"
  action_plan :: "ActionPlanItem list"
  groupedSuggestions :: "GroupedSuggestions option"

record DeepDiveAnalysisResult =
  documentTitleAnalyzed :: string
  overallSummary :: string
  keyThemesAndTopics :: "string list"
  dd_suggested_changes :: "SuggestedChange list"
  dd_action_plan :: "ActionPlanItem list"
  additionalObservations :: "string option"
  referencedRegulatoryInputs :: "string list option"

record GroundingChunk =
  web_uri :: "string option"
  web_title :: "string option"

record GroundingMetadata =
  searchQuery :: "string option"
  groundingChunks :: "GroundingChunk list option"

datatype FetchState = IDLE | LOADING | SUCCESS | ERROR

datatype AnalysisType = Challenge | DeepDive

datatype DocFileType = Pdf | Txt | Generic | Pasted

record AustracUpdate =
  au_id :: string
  title :: string
  rawContent :: string
  au_type :: DocFileType
  dateAdded :: string
  au_isProcessedForRag :: "bool option"
  summary :: "string option"

record CompanyDocument =
  cd_id :: string
  cd_name :: string
  textContent :: string
  cd_type :: DocFileType
  lastModified :: int
  size_bytes :: int
  cd_isProcessedForRag :: "bool option"

text \<open>The \<open>Pick<...>\<close> snapshots kept inside a saved analysis.\<close>

record CompanyDocSnapshot =
  cs_id :: string
  cs_name :: string
  cs_type :: DocFileType
  cs_lastModified :: int
  cs_size :: int

record AustracSnapshot =
  as_id :: string
  as_title :: string
  as_type :: DocFileType
  as_dateAdded :: string

text \<open>
  \<open>sa_timestamp\<close> stands for the ISO string \<open>timestamp\<close> through the only reading the
  program makes of it, \<open>new Date(timestamp).getTime()\<close>: milliseconds since the epoch.
  Every timestamp the program writes comes from \<open>new Date().toISOString()\<close>; a string
  that does not parse as a date is outside the model.
\<close>

record SavedAnalysis =
  sa_id :: string
  sa_name :: string
  sa_timestamp :: int
  sa_type :: AnalysisType
  challengeAnalysisResult :: "ChallengeAnalysisResult option"
  austracInputsUsedSnapshot :: "AustracSnapshot list option"
  companyDocumentsUsedSnapshot :: "CompanyDocSnapshot list option"
  summarizedAustracUpdatesSnapshot :: "AustracUpdate list option"
  learningsAppliedToThisAnalysis :: "string list option"
  selectedDocumentSnapshot :: "CompanyDocSnapshot option"
  deepDiveAnalysisResult :: "DeepDiveAnalysisResult option"
  groundingMetadata :: "GroundingMetadata option"
  userPrompt :: "string option"
  systemPrompt :: "string option"

datatype ChunkType = CompanyChunk | AustracChunk

record DocumentChunk =
  dc_id :: string
  documentId :: string
  documentName :: string
  documentType :: ChunkType
  dc_text :: string
  dc_keywords :: "string list"
  charCount :: nat

section \<open>Application state (the state hooks of App)\<close>

record AppState =
  userAustracContent :: "AustracUpdate list"
  internalCorpus :: "CompanyDocument list"
  challengeResult :: "ChallengeAnalysisResult option"
  summarizedUserAustracUpdates :: "AustracUpdate list"
  currentInputsForChallenge :: "CompanyDocSnapshot list \<times> AustracSnapshot list"
  selectedRegulatoryIdsForGapReview :: "string list"
  selectedCompanyDocIdsForGapReview :: "string list"
  fetchStatus :: FetchState
  errorMessage :: "string option"
  savedAnalyses :: "SavedAnalysis list"
  activeAnalysisId :: "string option"
  challengeNotification :: "string option"
  deepDiveAnalysisNotification :: "string option"
  ingestionStatus :: string
  selectedDocForDeepDiveId :: "string option"
  deepDiveResult :: "DeepDiveAnalysisResult option"
  deepDiveFetchStatus :: FetchState
  deepDiveError :: "string option"
  deepDiveGroundingMetadata :: "GroundingMetadata option"
  currentAnalysisPrompts :: "(string \<times> string) option"

section \<open>The analysis store\<close>

text \<open>
  \<open>[...].sort((a, b) => new Date(b.timestamp).getTime() - new Date(a.timestamp).getTime())\<close>:
  \<open>Array.prototype.sort\<close> is stable, so this is the stable sort by descending time.
\<close>

definition sortByTimestampDesc :: "SavedAnalysis list \<Rightarrow> SavedAnalysis list" where
  "sortByTimestampDesc sas = sort_key (\<lambda>sa. - sa_timestamp sa) sas"


subsection \<open>handleRenameAnalysis\<close>

definition handleRenameAnalysis :: "string \<Rightarrow> string \<Rightarrow> AppState \<Rightarrow> AppState" where
  "handleRenameAnalysis idToRename newName st =
     st\<lparr>savedAnalyses :=
          map (\<lambda>sa. if sa_id sa = idToRename then sa\<lparr>sa_name := newName\<rparr> else sa)
            (savedAnalyses st)\<rparr>"

subsection \<open>handleDeleteAnalysis\<close>


subsection \<open>updateFeedbackInSavedAnalyses\<close>









section \<open>Learnings from feedback\<close>

subsection \<open>extractLearningsFromFeedback\<close>

definition MAX_NOTE_LENGTH :: nat where
  "MAX_NOTE_LENGTH = 100"

definition MAX_ADOPTED_TEXT_LENGTH :: nat where
  "MAX_ADOPTED_TEXT_LENGTH = 750"

text \<open>Truthiness of a \<open>string | undefined\<close>: defined and not empty.\<close>

definition truthy :: "string option \<Rightarrow> bool" where
  "truthy s = (case s of None \<Rightarrow> False | Some v \<Rightarrow> v \<noteq> [])"

text \<open>
  The condition of the \<open>if\<close> that guards \<open>learnings.push\<close>:
  \<open>status && (status === "Actioned" || finalAdoptedText ||
     (status === "Not Applicable" && notes && notes.trim() !== ''))\<close>.
\<close>

definition feedbackQualifies :: "UserFeedback \<Rightarrow> bool" where
  "feedbackQualifies fb =
     (truthy (status fb) \<and>
      (status fb = Some ''Actioned'' \<or> truthy (finalAdoptedText fb) \<or>
       (status fb = Some ''Not Applicable'' \<and> truthy (fb_notes fb) \<and>
        (case fb_notes fb of None \<Rightarrow> False | Some n \<Rightarrow> trim n \<noteq> []))))"

definition analysisTypeLabel :: "SavedAnalysis \<Rightarrow> string" where
  "analysisTypeLabel analysis = (if sa_type analysis = Challenge then ''Gap Review'' else ''Deep Dive'')"

text \<open>\<open>text.substring(0, max)\<close> followed by \<open>...\<close> when the text is longer than \<open>max\<close>.\<close>

definition truncated :: "nat \<Rightarrow> string \<Rightarrow> string" where
  "truncated mx t = substring0 mx t @ (if length t > mx then ''...'' else [])"

definition learningPoint :: "SavedAnalysis \<Rightarrow> SuggestedChange \<Rightarrow> UserFeedback \<Rightarrow> string" where
  \<open>learningPoint analysis change fb =
     ''Feedback for suggestion regarding '' @ [CHR 0x27] @ document_section change @ [CHR 0x27]
       @ '' ('' @ analysisTypeLabel analysis @ '': '' @ substring0 20 (sa_name analysis)
       @ ''...): User status set to '' @ [CHR 0x27]
       @ (case status fb of None \<Rightarrow> ''undefined'' | Some s \<Rightarrow> s) @ [CHR 0x27] @ ''.''
       @ (if truthy (fb_notes fb)
          then '' Note: "'' @ truncated MAX_NOTE_LENGTH (case fb_notes fb of None \<Rightarrow> [] | Some n \<Rightarrow> n) @ ''".''
          else [])
       @ (if truthy (finalAdoptedText fb)
          then '' Adopted Text: "''
                 @ truncated MAX_ADOPTED_TEXT_LENGTH (case finalAdoptedText fb of None \<Rightarrow> [] | Some t \<Rightarrow> t)
                 @ ''".''
          else [])\<close>

text \<open>
  \<open>analysis.type === 'challenge' ? analysis.challengeAnalysisResult
     : analysis.deepDiveAnalysisResult\<close>, then \<open>resultSource?.suggested_changes\<close>.
\<close>

definition resultSourceChanges :: "SavedAnalysis \<Rightarrow> SuggestedChange list option" where
  "resultSourceChanges analysis =
     (if sa_type analysis = Challenge
      then map_option suggested_changes (challengeAnalysisResult analysis)
      else map_option dd_suggested_changes (deepDiveAnalysisResult analysis))"

text \<open>\<open>maxLearnings !== undefined && learnings.length >= maxLearnings\<close>.\<close>

definition reachedMax :: "nat option \<Rightarrow> string list \<Rightarrow> bool" where
  "reachedMax maxLearnings learnings =
     (case maxLearnings of None \<Rightarrow> False | Some n \<Rightarrow> length learnings \<ge> n)"

text \<open>The body of the inner loop for one change: the learnings after it.\<close>

definition pushLearning :: "SavedAnalysis \<Rightarrow> SuggestedChange \<Rightarrow> string list \<Rightarrow> string list" where
  "pushLearning analysis change learnings =
     (case sc_userFeedback change of
        None \<Rightarrow> learnings
      | Some fb \<Rightarrow>
          if feedbackQualifies fb then learnings @ [learningPoint analysis change fb]
          else learnings)"

text \<open>The inner loop, over the changes of one analysis; \<open>break\<close> returns the learnings.\<close>

fun scanChanges :: "nat option \<Rightarrow> SavedAnalysis \<Rightarrow> SuggestedChange list \<Rightarrow> string list \<Rightarrow> string list" where
  "scanChanges maxLearnings analysis [] learnings = learnings"
| "scanChanges maxLearnings analysis (change # rest) learnings =
     (if reachedMax maxLearnings learnings then learnings
      else scanChanges maxLearnings analysis rest (pushLearning analysis change learnings))"

text \<open>The outer loop, over the sorted analyses.\<close>

fun scanAnalyses :: "nat option \<Rightarrow> SavedAnalysis list \<Rightarrow> string list \<Rightarrow> string list" where
  "scanAnalyses maxLearnings [] learnings = learnings"
| "scanAnalyses maxLearnings (analysis # rest) learnings =
     (let learnings' =
            (case resultSourceChanges analysis of
               None \<Rightarrow> learnings
             | Some changes \<Rightarrow> scanChanges maxLearnings analysis changes learnings)
      in if reachedMax maxLearnings learnings' then learnings'
         else scanAnalyses maxLearnings rest learnings')"

definition extractLearningsFromFeedback :: "SavedAnalysis list \<Rightarrow> nat option \<Rightarrow> string list" where
  "extractLearningsFromFeedback analyses maxLearnings =
     scanAnalyses maxLearnings (sortByTimestampDesc analyses) []"

section \<open>Repair of the generator's JSON\<close>

text \<open>
  The regular expressions of \<open>generateGapReview\<close> and \<open>generateDeepDive\<close> (the second
  copies the first), each written as the matcher it denotes. A matcher is handed the text
  from the position where a match is tried and returns what the match leaves. Where a
  greedy \<open>\s*\<close> or \<open>\w*\<close> is followed by an atom that cannot start with a character of
  its class, backtracking into it can never help, so it is \<^const>\<open>dropWhile\<close>; the lazy
  \<open>.*?\<close> tries the shortest extension first, one character at a time.
\<close>

subsection \<open>The fence: \<open>/^```(\w*)?\s*\n?(.*?)\n?\s*```$/s\<close>\<close>

text \<open>
  \<open>fenceTail\<close> is \<open>\n?\s*```$\<close> (a line feed is a space character, so this is \<open>\s*```$\<close>);
  \<open>lazyFence\<close> is group 2, \<open>(.*?)\<close> with the \<open>s\<close> flag, followed by the tail;
  \<open>fenceMatch\<close> is \<open>match[2]\<close> of \<open>jsonStr.match(fenceRegex)\<close>, and \<open>None\<close> when
  there is no match.
\<close>

definition fenceTail :: "string \<Rightarrow> bool" where
  "fenceTail s = (dropWhile isSpace s = ''```'')"

fun lazyFence :: "string \<Rightarrow> string option" where
  "lazyFence [] = None"
| "lazyFence (c # cs) =
     (if fenceTail (c # cs) then Some [] else map_option ((#) c) (lazyFence cs))"

definition fenceMatch :: "string \<Rightarrow> string option" where
  "fenceMatch s =
     (case stripPrefix ''```'' s of
        None \<Rightarrow> None
      | Some r \<Rightarrow> lazyFence (dropWhile isSpace (dropWhile isWordChar r)))"

text \<open>\<open>if (match && match[2]) jsonStr = match[2].trim();\<close>\<close>

definition stripFence :: "string \<Rightarrow> string" where
  "stripFence jsonStr =
     (case fenceMatch jsonStr of
        None \<Rightarrow> jsonStr
      | Some g \<Rightarrow> if g \<noteq> [] then trim g else jsonStr)"

subsection \<open>Type 1: \<open>/(})\s*([a-zA-Z_][a-zA-Z0-9_]*)\s*({)/g\<close>\<close>

text \<open>\<open>\s*[a-zA-Z_][a-zA-Z0-9_]*\s*\<close>: the text after the stray word.\<close>

definition afterStrayWord :: "string \<Rightarrow> string option" where
  "afterStrayWord s =
     (case dropWhile isSpace s of
        [] \<Rightarrow> None
      | c # r \<Rightarrow> if isWordStart c then Some (dropWhile isSpace (dropWhile isWordChar r)) else None)"

text \<open>\<open>}\<close>, the stray word, then the character \<open>close\<close>: the text after the match.\<close>

definition braceWordThen :: "char \<Rightarrow> string \<Rightarrow> string option" where
  "braceWordThen close s =
     (case s of
        [] \<Rightarrow> None
      | c # r \<Rightarrow>
          if c = CHR ''}'' then
            (case afterStrayWord r of
               Some (d # t) \<Rightarrow> if d = close then Some t else None
             | _ \<Rightarrow> None)
          else None)"

definition match1 :: "string \<Rightarrow> string option" where
  "match1 s = braceWordThen (CHR ''{'') s"

text \<open>\<open>malformationRegex1.test(jsonStr)\<close>: a match at some position.\<close>

fun test1 :: "string \<Rightarrow> bool" where
  "test1 [] = False"
| "test1 (c # cs) = (match1 (c # cs) \<noteq> None \<or> test1 cs)"

lemma afterStrayWord_shorter: "afterStrayWord s = Some r \<Longrightarrow> length r < length s"
proof -
  assume a: "afterStrayWord s = Some r"
  obtain c t where ct: "dropWhile isSpace s = c # t"
    using a by (cases "dropWhile isSpace s") (auto simp: afterStrayWord_def)
  have r: "r = dropWhile isSpace (dropWhile isWordChar t)"
    using a ct by (auto simp: afterStrayWord_def split: if_splits)
  have "length r \<le> length t"
    unfolding r by (meson length_dropWhile_le order_trans)
  moreover have "length (c # t) \<le> length s"
    using ct length_dropWhile_le [of isSpace s] by simp
  ultimately show ?thesis by simp
qed

lemma braceWordThen_shorter: "braceWordThen close s = Some r \<Longrightarrow> length r < length s"
  by (auto simp: braceWordThen_def split: list.splits if_splits option.splits
      dest!: afterStrayWord_shorter)

text \<open>
  \<open>jsonStr.replace(malformationRegex1, '$1, $3')\<close>: every match, left to right, each
  search resuming where the previous match ended.
\<close>

function replace1 :: "string \<Rightarrow> string" where
  "replace1 [] = []"
| "replace1 (c # cs) =
     (case match1 (c # cs) of
        Some rest \<Rightarrow> ''}, {'' @ replace1 rest
      | None \<Rightarrow> c # replace1 cs)"
  by pat_completeness auto
termination
  by (relation "measure length") (auto simp: match1_def dest: braceWordThen_shorter)

subsection \<open>Type 2: \<open>/(})\s*[a-zA-Z_][a-zA-Z0-9_]*\s*(,)/g\<close>\<close>

definition match2 :: "string \<Rightarrow> string option" where
  "match2 s = braceWordThen (CHR '','') s"

fun test2 :: "string \<Rightarrow> bool" where
  "test2 [] = False"
| "test2 (c # cs) = (match2 (c # cs) \<noteq> None \<or> test2 cs)"

text \<open>\<open>jsonStr.replace(malformationRegex2, '$1$2')\<close>\<close>

function replace2 :: "string \<Rightarrow> string" where
  "replace2 [] = []"
| "replace2 (c # cs) =
     (case match2 (c # cs) of
        Some rest \<Rightarrow> ''},'' @ replace2 rest
      | None \<Rightarrow> c # replace2 cs)"
  by pat_completeness auto
termination
  by (relation "measure length") (auto simp: match2_def dest: braceWordThen_shorter)

subsection \<open>Type 3: \<open>/("timeline":\s*".*?",\s*)"(High|Medium|Low)"/g\<close>\<close>

text \<open>\<open>(High|Medium|Low)\<close>: the alternatives in order; the word and the text after it.\<close>

definition priorityWord :: "string \<Rightarrow> (string \<times> string) option" where
  "priorityWord s =
     (case stripPrefix ''High'' s of
        Some r \<Rightarrow> Some (''High'', r)
      | None \<Rightarrow>
          (case stripPrefix ''Medium'' s of
             Some r \<Rightarrow> Some (''Medium'', r)
           | None \<Rightarrow>
               (case stripPrefix ''Low'' s of
                  Some r \<Rightarrow> Some (''Low'', r)
                | None \<Rightarrow> None)))"

text \<open>
  \<open>",\s*)"(High|Medium|Low)"\<close>, the end of the pattern after \<open>.*?\<close>: the text the first
  group still takes (\<open>",\<close> and the spaces), the word of the second group, and the text
  after the match.
\<close>

definition matchTail3 :: "string \<Rightarrow> (string \<times> string \<times> string) option" where
  \<open>matchTail3 s =
     (case stripPrefix ''",'' s of
        None \<Rightarrow> None
      | Some r \<Rightarrow>
          (case stripPrefix ''"'' (dropWhile isSpace r) of
             None \<Rightarrow> None
           | Some r2 \<Rightarrow>
               (case priorityWord r2 of
                  None \<Rightarrow> None
                | Some (w, r3) \<Rightarrow>
                    (case stripPrefix ''"'' r3 of
                       None \<Rightarrow> None
                     | Some r4 \<Rightarrow> Some (''",'' @ takeWhile isSpace r, w, r4)))))\<close>

text \<open>\<open>.*?\<close> followed by the tail: no line terminator is crossed.\<close>

fun lazyDot3 :: "string \<Rightarrow> (string \<times> string \<times> string) option" where
  "lazyDot3 [] = None"
| "lazyDot3 (c # cs) =
     (case matchTail3 (c # cs) of
        Some m \<Rightarrow> Some m
      | None \<Rightarrow>
          if isLineTerminator c then None
          else map_option (\<lambda>(g, w, rest). (c # g, w, rest)) (lazyDot3 cs))"

text \<open>The whole pattern at the head of \<open>s\<close>: \<open>$1\<close>, \<open>$2\<close> and the text after the match.\<close>

definition match3 :: "string \<Rightarrow> (string \<times> string \<times> string) option" where
  \<open>match3 s =
     (case stripPrefix ''"timeline":'' s of
        None \<Rightarrow> None
      | Some r \<Rightarrow>
          (case stripPrefix ''"'' (dropWhile isSpace r) of
             None \<Rightarrow> None
           | Some r2 \<Rightarrow>
               map_option
                 (\<lambda>(g, w, rest). (''"timeline":'' @ takeWhile isSpace r @ ''"'' @ g, w, rest))
                 (lazyDot3 r2)))\<close>

fun test3 :: "string \<Rightarrow> bool" where
  "test3 [] = False"
| "test3 (c # cs) = (match3 (c # cs) \<noteq> None \<or> test3 cs)"

lemma stripPrefix_append: "stripPrefix p s = Some r \<Longrightarrow> s = p @ r"
  by (induction p s rule: stripPrefix.induct) (auto split: if_splits)

lemma matchTail3_shorter: "matchTail3 s = Some (g, w, rest) \<Longrightarrow> length rest < length s"
proof -
  assume a: "matchTail3 s = Some (g, w, rest)"
  then obtain r r2 r3 where
    1: "stripPrefix [CHR 0x22, CHR '',''] s = Some r" and
    2: "stripPrefix [CHR 0x22] (dropWhile isSpace r) = Some r2" and
    3: "priorityWord r2 = Some (w, r3)" and
    4: "stripPrefix [CHR 0x22] r3 = Some rest"
    by (auto simp: matchTail3_def split: option.splits)
  have "length r3 \<le> length r2"
    using 3 by (auto simp: priorityWord_def split: option.splits dest!: stripPrefix_append)
  moreover have "length r2 \<le> length r"
    using stripPrefix_append [OF 2] length_dropWhile_le [of isSpace r] by simp
  moreover have "length rest < length r3"
    using stripPrefix_append [OF 4] by simp
  moreover have "length r \<le> length s"
    using stripPrefix_append [OF 1] by simp
  ultimately show ?thesis by simp
qed

lemma lazyDot3_shorter: "lazyDot3 s = Some (g, w, rest) \<Longrightarrow> length rest < length s"
proof (induction s arbitrary: g)
  case Nil
  then show ?case by simp
next
  case (Cons c cs)
  show ?case
  proof (cases "matchTail3 (c # cs)")
    case (Some m)
    then have "matchTail3 (c # cs) = Some (g, w, rest)" using Cons.prems by simp
    then show ?thesis by (rule matchTail3_shorter)
  next
    case None
    then obtain g' where "lazyDot3 cs = Some (g', w, rest)"
      using Cons.prems by (auto split: if_splits)
    then show ?thesis using Cons.IH by fastforce
  qed
qed

lemma match3_shorter: "match3 s = Some (g, w, rest) \<Longrightarrow> length rest < length s"
proof -
  assume a: "match3 s = Some (g, w, rest)"
  then obtain r r2 g' where
    1: "stripPrefix ''\"timeline\":'' s = Some r" and
    2: "stripPrefix [CHR 0x22] (dropWhile isSpace r) = Some r2" and
    3: "lazyDot3 r2 = Some (g', w, rest)"
    by (auto simp: match3_def split: option.splits)
  have "length rest < length r2" using lazyDot3_shorter [OF 3] .
  moreover have "length r2 \<le> length r"
    using stripPrefix_append [OF 2] length_dropWhile_le [of isSpace r] by simp
  moreover have "length r \<le> length s"
    using stripPrefix_append [OF 1] by simp
  ultimately show ?thesis by simp
qed

text \<open>\<open>jsonStr.replace(missingPriorityKeyRegex, '$1"priority_level": "$2"')\<close>\<close>

function replace3 :: "string \<Rightarrow> string" where
  "replace3 [] = []"
| "replace3 (c # cs) =
     (case match3 (c # cs) of
        Some (g, w, rest) \<Rightarrow> g @ ''\"priority_level\": \"'' @ w @ ''\"'' @ replace3 rest
      | None \<Rightarrow> c # replace3 cs)"
  by pat_completeness auto
termination
  by (relation "measure length") (auto dest: match3_shorter)

subsection \<open>The pipeline\<close>

text \<open>
  The value of \<open>jsonStr\<close> handed to \<open>JSON.parse\<close>, from its value after
  \<open>let jsonStr = response.text.trim()\<close>; each rewrite runs only when its \<open>test\<close> finds
  the pattern.
\<close>

definition fixMissingComma :: "string \<Rightarrow> string" where
  "fixMissingComma jsonStr = (if test1 jsonStr then replace1 jsonStr else jsonStr)"

definition fixExtraneousWord :: "string \<Rightarrow> string" where
  "fixExtraneousWord jsonStr = (if test2 jsonStr then replace2 jsonStr else jsonStr)"

definition fixMissingPriorityKey :: "string \<Rightarrow> string" where
  "fixMissingPriorityKey jsonStr = (if test3 jsonStr then replace3 jsonStr else jsonStr)"

definition repairJson :: "string \<Rightarrow> string" where
  "repairJson jsonStr =
     fixMissingPriorityKey (fixExtraneousWord (fixMissingComma (stripFence jsonStr)))"

definition repairResponseText :: "string \<Rightarrow> string" where
  "repairResponseText responseText = repairJson (trim responseText)"

section \<open>Learnings for the Gap Review prompt\<close>

subsection \<open>\<open>/regarding '(.*?)'/\<close>\<close>

text \<open>\<open>(.*?)'\<close> at the head of the text: group 1, up to the next quote on the line.\<close>

fun lazyUntilQuote :: "string \<Rightarrow> string option" where
  "lazyUntilQuote [] = None"
| "lazyUntilQuote (c # cs) =
     (if c = CHR 0x27 then Some []
      else if isLineTerminator c then None
      else map_option ((#) c) (lazyUntilQuote cs))"

text \<open>
  \<open>learningString.match(learningDocSectionRegex)\<close>: \<open>match[1]\<close> of the leftmost match,
  \<open>None\<close> when the pattern matches nowhere.
\<close>

fun docSectionMatch :: "string \<Rightarrow> string option" where
  "docSectionMatch [] = None"
| "docSectionMatch (c # cs) =
     (case stripPrefix (''regarding '' @ [CHR 0x27]) (c # cs) of
        None \<Rightarrow> docSectionMatch cs
      | Some r \<Rightarrow>
          (case lazyUntilQuote r of
             None \<Rightarrow> docSectionMatch cs
           | Some g \<Rightarrow> Some g))"

subsection \<open>\<open>/: User status set to '(.*)'\.( Note: ".*")?( Adopted Text: ".*")?/\<close>\<close>

text \<open>
  A greedy \<open>.*\<close> followed by the literal \<open>lit\<close>: the longest extension first, so the
  match ends at the last \<open>lit\<close> of the line. The result is the text \<open>.*\<close> took and the
  text after \<open>lit\<close>.
\<close>

fun greedyDot :: "string \<Rightarrow> string \<Rightarrow> (string \<times> string) option" where
  "greedyDot lit [] = (case stripPrefix lit [] of None \<Rightarrow> None | Some r \<Rightarrow> Some ([], r))"
| "greedyDot lit (c # cs) =
     (case (if isLineTerminator c then None else greedyDot lit cs) of
        Some (g, r) \<Rightarrow> Some (c # g, r)
      | None \<Rightarrow>
          (case stripPrefix lit (c # cs) of None \<Rightarrow> None | Some r \<Rightarrow> Some ([], r)))"

text \<open>
  An optional group \<open>( Note: ".*")?\<close> whose opening literal is \<open>lit\<close>: the text of the
  group (empty when it does not take part) and the text after it.
\<close>

definition optQuoted :: "string \<Rightarrow> string \<Rightarrow> string \<times> string" where
  \<open>optQuoted lit s =
     (case stripPrefix lit s of
        None \<Rightarrow> ([], s)
      | Some r \<Rightarrow>
          (case greedyDot ''"'' r of
             None \<Rightarrow> ([], s)
           | Some (g, rest) \<Rightarrow> (lit @ g @ ''"'', rest)))\<close>

text \<open>The pattern at the head of the text: \<open>match[1] + (match[2] || '') + (match[3] || '')\<close>.\<close>

definition coreMatchAt :: "string \<Rightarrow> string option" where
  \<open>coreMatchAt s =
     (case stripPrefix ('': User status set to '' @ [CHR 0x27]) s of
        None \<Rightarrow> None
      | Some r \<Rightarrow>
          (case greedyDot ([CHR 0x27] @ ''.'') r of
             None \<Rightarrow> None
           | Some (g1, rest) \<Rightarrow>
               (let (g2, rest2) = optQuoted '' Note: "'' rest;
                    (g3, rest3) = optQuoted '' Adopted Text: "'' rest2
                in Some (g1 @ g2 @ g3))))\<close>

fun coreMatch :: "string \<Rightarrow> string option" where
  "coreMatch [] = None"
| "coreMatch (c # cs) =
     (case coreMatchAt (c # cs) of None \<Rightarrow> coreMatch cs | Some k \<Rightarrow> Some k)"

definition coreLearningContent :: "string \<Rightarrow> string" where
  "coreLearningContent learningString =
     (case coreMatch learningString of None \<Rightarrow> learningString | Some k \<Rightarrow> k)"

subsection \<open>selectContextualLearningsForChallengePrompt\<close>

text \<open>
  The loop over the company documents for one learning: whether the learning is pushed.
  \<open>added\<close> holds the members of the set \<open>addedLearningContents\<close>.
\<close>

fun scanCompanyDocs :: "string \<Rightarrow> string \<Rightarrow> string list \<Rightarrow> CompanyDocument list \<Rightarrow> bool" where
  "scanCompanyDocs docSectionFromLearning learningString added [] = False"
| "scanCompanyDocs docSectionFromLearning learningString added (companyDoc # rest) =
     (if jsIncludes docSectionFromLearning (toLowerCase (cd_name companyDoc)) then
        (if docSectionFromLearning @ coreLearningContent learningString \<notin> set added then True
         else scanCompanyDocs docSectionFromLearning learningString added rest)
      else scanCompanyDocs docSectionFromLearning learningString added rest)"

text \<open>The loop over the learnings, with \<open>contextualLearnings\<close> and the set as they grow.\<close>

fun scanLearnings :: "nat \<Rightarrow> CompanyDocument list \<Rightarrow> string list \<Rightarrow> string list \<Rightarrow> string list \<Rightarrow> string list" where
  "scanLearnings maxLearningsForPrompt docs [] contextualLearnings added = contextualLearnings"
| "scanLearnings maxLearningsForPrompt docs (learningString # rest) contextualLearnings added =
     (if length contextualLearnings \<ge> maxLearningsForPrompt then contextualLearnings
      else
        (case docSectionMatch learningString of
           None \<Rightarrow> scanLearnings maxLearningsForPrompt docs rest contextualLearnings added
         | Some g \<Rightarrow>
             if g \<noteq> [] \<and> scanCompanyDocs (toLowerCase g) learningString added docs
             then scanLearnings maxLearningsForPrompt docs rest
                    (contextualLearnings @ [learningString])
                    (added @ [toLowerCase g @ coreLearningContent learningString])
             else scanLearnings maxLearningsForPrompt docs rest contextualLearnings added))"

definition selectContextualLearningsForChallengePrompt ::
  "string list \<Rightarrow> CompanyDocument list \<Rightarrow> nat \<Rightarrow> string list" where
  "selectContextualLearningsForChallengePrompt allPotentialLearnings
       currentCompanyDocsForChallenge maxLearningsForPrompt =
     (if currentCompanyDocsForChallenge = [] \<or> allPotentialLearnings = [] then []
      else scanLearnings maxLearningsForPrompt currentCompanyDocsForChallenge
             allPotentialLearnings [] [])"

section \<open>The Gap Review workflow\<close>

subsection \<open>Collaborators\<close>

text \<open>
  What one run reads from outside the component. A call that throws is \<open>Inl\<close> with the
  message of the error. \<open>jsonParse\<close> is \<open>JSON.parse(jsonStr) as ChallengeAnalysisResult\<close>
  together with the shape the post-processing needs (an object whose two lists, when
  present, are arrays of objects): \<open>None\<close> when the parse or that reading throws. The
  identifiers and the clock are the values \<open>Date.now()\<close>, \<open>generateUniqueId()\<close> and
  \<open>new Date()\<close> produce during the run; \<open>RAG_TOP_K_CHUNKS_ANALYSIS\<close> is a constant of
  \<open>constants.tsx\<close>.
\<close>

record RawSuggestedChange =
  raw_source_document_name :: "string option"
  raw_document_section :: "string option"
  raw_current_status_summary :: "string option"
  raw_austrac_relevance :: "string option"
  raw_suggested_modification :: "string option"
  raw_priority :: "string option"
  raw_sc_userFeedback :: "UserFeedback option"

record RawActionPlanItem =
  raw_task :: "string option"
  raw_responsible :: "string option"
  raw_timeline :: "string option"
  raw_priority_level :: "string option"
  raw_ap_userFeedback :: "UserFeedback option"

record RawAnalysisResult =
  raw_suggested_changes :: "RawSuggestedChange list option"
  raw_action_plan :: "RawActionPlanItem list option"

record Collaborators =
  aiClient :: bool
  generateContent :: "string \<Rightarrow> bool \<Rightarrow> string + string"
  retrieveContextFromVertexAI :: "string \<Rightarrow> nat \<Rightarrow> string + DocumentChunk list"
  ingestDocumentToVertexAI :: "string \<Rightarrow> string + bool"
  jsonParse :: "string \<Rightarrow> RawAnalysisResult option"
  RAG_TOP_K_CHUNKS_ANALYSIS :: nat
  freshChangeId :: "nat \<Rightarrow> string"
  freshActionId :: "nat \<Rightarrow> string"
  freshAnalysisId :: string
  localeNow :: string
  timestampNow :: int

text \<open>The calls a run makes to the collaborators, in the order it makes them.\<close>

datatype Call =
  GeneratorCall string
| RetrieverCall string nat
| IngestCall string

definition isGeneratorCall :: "Call \<Rightarrow> bool" where
  "isGeneratorCall c = (case c of GeneratorCall _ \<Rightarrow> True | _ \<Rightarrow> False)"

definition isRetrieverCall :: "Call \<Rightarrow> bool" where
  "isRetrieverCall c = (case c of RetrieverCall _ _ \<Rightarrow> True | _ \<Rightarrow> False)"

subsection \<open>ingestAllUnprocessedDocuments\<close>

text \<open>
  One document of a corpus: skipped when already processed (unless forced), otherwise
  handed to the ingestion service; a failure or an exception is only counted. The result
  is whether the processed flag is to be set, and the calls made.
\<close>

definition processAndIngestDoc :: "Collaborators \<Rightarrow> bool \<Rightarrow> string \<Rightarrow> bool option \<Rightarrow> bool \<times> Call list" where
  "processAndIngestDoc env forceReprocessAll docId processed =
     (if \<not> forceReprocessAll \<and> processed = Some True then (False, [])
      else (ingestDocumentToVertexAI env docId = Inr True, [IngestCall docId]))"

definition ingestAllUnprocessedDocuments :: "Collaborators \<Rightarrow> bool \<Rightarrow> AppState \<Rightarrow> AppState \<times> Call list" where
  "ingestAllUnprocessedDocuments env forceReprocessAll st =
     (let company = map (\<lambda>d. (cd_id d, processAndIngestDoc env forceReprocessAll (cd_id d)
                                          (cd_isProcessedForRag d))) (internalCorpus st);
          austrac = map (\<lambda>u. (au_id u, processAndIngestDoc env forceReprocessAll (au_id u)
                                          (au_isProcessedForRag u))) (userAustracContent st);
          companyDone = map fst (filter (\<lambda>(i, ok, calls). ok) company);
          austracDone = map fst (filter (\<lambda>(i, ok, calls). ok) austrac)
      in (st\<lparr>internalCorpus :=
               map (\<lambda>d. if cd_id d \<in> set companyDone then d\<lparr>cd_isProcessedForRag := Some True\<rparr> else d)
                 (internalCorpus st),
             userAustracContent :=
               map (\<lambda>u. if au_id u \<in> set austracDone then u\<lparr>au_isProcessedForRag := Some True\<rparr> else u)
                 (userAustracContent st)\<rparr>,
          concat (map (\<lambda>(i, ok, calls). calls) company)
            @ concat (map (\<lambda>(i, ok, calls). calls) austrac)))"

subsection \<open>Prompt composition\<close>

text \<open>\<open>xs.join(sep)\<close>\<close>

fun joinWith :: "string \<Rightarrow> string list \<Rightarrow> string" where
  "joinWith sep [] = []"
| "joinWith sep [x] = x"
| "joinWith sep (x # y # ys) = x @ sep @ joinWith sep (y # ys)"

definition systemPromptHead :: string where
  \<open>systemPromptHead =
     ''\<newline>''
     @ ''        Analyze the provided context against the company's internal documentatio''
     @ ''n context. This is a "Gap Review" to find gaps and suggest improvements, specifi''
     @ ''cally focusing on the impact of the newly provided regulatory content on the sel''
     @ ''ected company documents.\<newline>''
     @ ''        The company is a Fintech firm focused on international payments and curr''
     @ ''ency exchange.\<newline>''
     @ ''        Critically evaluate whether the company's documentation reflects a robus''
     @ ''t, risk-based approach to compliance, where controls are proportionate to the id''
     @ ''entified risks.\<newline>''
     @ ''        Identify specific, actionable changes the company needs to make. Also, c''
     @ ''reate a prioritized action plan.\<newline>''
     @ ''        ''\<close>

definition systemPromptTail :: string where
  \<open>systemPromptTail =
     ''\<newline>''
     @ ''      ''\<close>

definition userPromptHead :: string where
  \<open>userPromptHead =
     ''\<newline>''
     @ ''        ''\<close>

definition userPromptTail :: string where
  \<open>userPromptTail =
     ''\<newline>''
     @ ''\<newline>''
     @ ''        Output the analysis in JSON format. For each item in "suggested_changes"''
     @ '', you MUST include a "source_document_name" field indicating which of the provid''
     @ ''ed Company Documents it applies to.\<newline>''
     @ ''\<newline>''
     @ ''        JSON Structure:\<newline>''
     @ ''        {\<newline>''
     @ ''          "suggested_changes": [ { "source_document_name": "Name Of The Document''
     @ ''.pdf", "document_section": "...", "current_status_summary": "...", "austrac_rele''
     @ ''vance": "...", "suggested_modification": "...", "priority": "High | Medium | Low''
     @ ''" } ],\<newline>''
     @ ''          "action_plan": [ { "task": "...", "responsible": "...", "timeline": ".''
     @ ''..", "priority_level": "High | Medium | Low" } ]\<newline>''
     @ ''        }\<newline>''
     @ ''        Ensure "document_section" refers to sections within the "source_document''
     @ ''_name".\<newline>''
     @ ''        Prioritize clarity and actionability. If a document is compliant, note i''
     @ ''t.\<newline>''
     @ ''      ''\<close>

definition learningsBlock :: "string list \<Rightarrow> string" where
  \<open>learningsBlock contextualLearningsForChallenge =
     (if length contextualLearningsForChallenge > 0
      then ''\<newline>---Important Context from Previous User Feedback:...\<newline>''
             @ joinWith ''\<newline>'' (map (\<lambda>learning. ''- '' @ learning) contextualLearningsForChallenge)
             @ ''\<newline>---''
      else [])\<close>

definition systemPromptOf :: "string list \<Rightarrow> string" where
  "systemPromptOf contextualLearningsForChallenge =
     systemPromptHead @ learningsBlock contextualLearningsForChallenge @ systemPromptTail"

definition summaryPrompt :: "AustracUpdate \<Rightarrow> string" where
  \<open>summaryPrompt update =
     ''Summarize the key compliance implications from the following regulatory content titled "''
       @ title update
       @ ''". Focus on actionable changes or requirements for a financial services provider, ''
       @ ''particularly one involved in international payments and currency exchange. ''
       @ ''The content is: \<newline>\<newline>''
       @ substring0 30000 (rawContent update)\<close>

text \<open>One summary call: the update with its summary, a placeholder when the call throws.\<close>

definition summarizeUpdate :: "Collaborators \<Rightarrow> AustracUpdate \<Rightarrow> AustracUpdate" where
  "summarizeUpdate env update =
     (case generateContent env (summaryPrompt update) False of
        Inr t \<Rightarrow> update\<lparr>summary := Some t\<rparr>
      | Inl e \<Rightarrow> update\<lparr>summary := Some ''Could not generate summary due to an error.''\<rparr>)"

definition combinedQueryForRag :: "AustracUpdate list \<Rightarrow> CompanyDocument list \<Rightarrow> string" where
  "combinedQueryForRag newSummarizedLocalUpdates targetedCompanyDocs =
     ''Compliance Gap Review for international payments fintech. Analyze impact of new regulations: ''
       @ joinWith '', '' (map title newSummarizedLocalUpdates)
       @ '' against selected company policies. Company documents include: ''
       @ joinWith '', '' (map cd_name targetedCompanyDocs) @ ''.''"

text \<open>The two filters over the retrieved chunks, and what each kept chunk contributes.\<close>

definition austracChunksUsed :: "AustracUpdate list \<Rightarrow> DocumentChunk list \<Rightarrow> DocumentChunk list" where
  "austracChunksUsed targetedRegulatoryContent relevantChunks =
     filter (\<lambda>c. documentType c = AustracChunk
                  \<and> list_ex (\<lambda>d. au_id d = documentId c) targetedRegulatoryContent)
       relevantChunks"

definition companyChunksUsed :: "CompanyDocument list \<Rightarrow> DocumentChunk list \<Rightarrow> DocumentChunk list" where
  "companyChunksUsed targetedCompanyDocs relevantChunks =
     filter (\<lambda>c. documentType c = CompanyChunk
                  \<and> list_ex (\<lambda>d. cd_id d = documentId c) targetedCompanyDocs)
       relevantChunks"

definition austracContextFromChunks :: "AustracUpdate list \<Rightarrow> DocumentChunk list \<Rightarrow> string" where
  \<open>austracContextFromChunks targetedRegulatoryContent relevantChunks =
     joinWith ''\<newline>\<newline>---\<newline>\<newline>''
       (map (\<lambda>c. ''From Regulatory Document "'' @ documentName c
                   @ ''" (Retrieved via Vertex AI RAG):\<newline>'' @ dc_text c)
          (austracChunksUsed targetedRegulatoryContent relevantChunks))\<close>

definition companyContextFromChunks :: "CompanyDocument list \<Rightarrow> DocumentChunk list \<Rightarrow> string" where
  \<open>companyContextFromChunks targetedCompanyDocs relevantChunks =
     joinWith ''\<newline>\<newline>---\<newline>\<newline>''
       (map (\<lambda>c. ''From Company Document "'' @ documentName c
                   @ ''" (Retrieved via Vertex AI RAG):\<newline>'' @ dc_text c)
          (companyChunksUsed targetedCompanyDocs relevantChunks))\<close>

definition userPromptContext ::
  "AustracUpdate list \<Rightarrow> CompanyDocument list \<Rightarrow> AustracUpdate list \<Rightarrow> DocumentChunk list \<Rightarrow> string" where
  "userPromptContext targetedRegulatoryContent targetedCompanyDocs newSummarizedLocalUpdates
       relevantChunks =
     (if austracContextFromChunks targetedRegulatoryContent relevantChunks \<noteq> []
      then ''\<newline>\<newline>Retrieved Targeted Regulatory Updates Context (from Vertex AI RAG):\<newline>''
             @ austracContextFromChunks targetedRegulatoryContent relevantChunks
      else ''\<newline>\<newline>No specific Regulatory document context retrieved from Vertex AI RAG; ''
             @ ''using summaries of the targeted documents. Summaries: \<newline>''
             @ joinWith ''\<newline>''
                 (map (\<lambda>u. ''Title: '' @ title u @ '', Summary: ''
                             @ (if truthy (summary u)
                                then (case summary u of None \<Rightarrow> [] | Some t \<Rightarrow> t) else ''N/A''))
                    newSummarizedLocalUpdates))
     @ (if companyContextFromChunks targetedCompanyDocs relevantChunks \<noteq> []
        then ''\<newline>\<newline>Retrieved Company'' @ [CHR 0x27]
               @ ''s Internal Documents Context (from Vertex AI RAG):\<newline>''
               @ companyContextFromChunks targetedCompanyDocs relevantChunks
        else ''\<newline>\<newline>No specific company document context retrieved from Vertex AI RAG; ''
               @ ''relying on general document names/types provided. Selected company docs: ''
               @ joinWith '', '' (map cd_name targetedCompanyDocs))"

definition userPromptOf ::
  "AustracUpdate list \<Rightarrow> CompanyDocument list \<Rightarrow> AustracUpdate list \<Rightarrow> DocumentChunk list \<Rightarrow> string" where
  "userPromptOf targetedRegulatoryContent targetedCompanyDocs newSummarizedLocalUpdates
       relevantChunks =
     userPromptHead
       @ userPromptContext targetedRegulatoryContent targetedCompanyDocs
           newSummarizedLocalUpdates relevantChunks
       @ userPromptTail"

subsection \<open>Post-processing of the parsed result\<close>

text \<open>\<open>['High', 'Medium', 'Low'].includes(p) ? p : 'Medium'\<close>\<close>

definition coercePriority :: "string option \<Rightarrow> Priority" where
  "coercePriority p =
     (if p = Some ''High'' then High
      else if p = Some ''Medium'' then Medium
      else if p = Some ''Low'' then Low
      else Medium)"

text \<open>\<open>value || "N/A"\<close>\<close>

definition orNA :: "string option \<Rightarrow> string" where
  "orNA v = (case v of None \<Rightarrow> ''N/A'' | Some t \<Rightarrow> if t = [] then ''N/A'' else t)"

definition postProcessChange :: "Collaborators \<Rightarrow> nat \<times> RawSuggestedChange \<Rightarrow> SuggestedChange" where
  "postProcessChange env ic =
     (case ic of (index, change) \<Rightarrow>
        \<lparr>sc_id = freshChangeId env index,
         document_section = orNA (raw_document_section change),
         current_status_summary = orNA (raw_current_status_summary change),
         austrac_relevance = orNA (raw_austrac_relevance change),
         suggested_modification = orNA (raw_suggested_modification change),
         priority = coercePriority (raw_priority change),
         sc_userFeedback = raw_sc_userFeedback change,
         source_document_name = raw_source_document_name change\<rparr>)"

definition postProcessItem :: "Collaborators \<Rightarrow> nat \<times> RawActionPlanItem \<Rightarrow> ActionPlanItem" where
  "postProcessItem env ii =
     (case ii of (index, item) \<Rightarrow>
        \<lparr>ap_id = freshActionId env index,
         task = orNA (raw_task item),
         responsible = orNA (raw_responsible item),
         timeline = orNA (raw_timeline item),
         priority_level = coercePriority (raw_priority_level item),
         ap_userFeedback = raw_ap_userFeedback item\<rparr>)"

text \<open>\<open>(list || []).map((x, index) => ...)\<close>\<close>

definition withIndex :: "'a list option \<Rightarrow> (nat \<times> 'a) list" where
  "withIndex xs = (case xs of None \<Rightarrow> [] | Some l \<Rightarrow> enumerate 0 l)"

subsection \<open>Grouping by source document\<close>

text \<open>\<open>change.source_document_name || 'General'\<close>\<close>

definition docNameOf :: "SuggestedChange \<Rightarrow> string" where
  "docNameOf change =
     (case source_document_name change of
        None \<Rightarrow> ''General''
      | Some n \<Rightarrow> if n = [] then ''General'' else n)"

text \<open>
  \<open>groupedSuggestions\<close> starts as the object literal \<open>{}\<close>, so reading a key it does not
  own answers with the property \<open>Object.prototype\<close> has under that name. These are the
  names for which that property exists; each is truthy and has no \<open>push\<close>, so for such a
  document name the array is never created and \<open>groupedSuggestions[docName].push(change)\<close>
  throws a TypeError.
\<close>

definition objectPrototypeKeys :: "string list" where
  "objectPrototypeKeys =
     [''constructor'', ''__defineGetter__'', ''__defineSetter__'', ''hasOwnProperty'',
      ''__lookupGetter__'', ''__lookupSetter__'', ''isPrototypeOf'', ''propertyIsEnumerable'',
      ''toString'', ''valueOf'', ''__proto__'', ''toLocaleString'']"

datatype Thrown = TypeError

text \<open>
  \<open>if (!groupedSuggestions[docName]) groupedSuggestions[docName] = [];
     groupedSuggestions[docName].push(change);\<close> for a key the object may own.
\<close>

fun pushGroup :: "string \<Rightarrow> SuggestedChange \<Rightarrow> GroupedSuggestions \<Rightarrow> GroupedSuggestions" where
  "pushGroup docName change [] = [(docName, [change])]"
| "pushGroup docName change ((k, grp) # rest) =
     (if k = docName then (k, grp @ [change]) # rest
      else (k, grp) # pushGroup docName change rest)"

text \<open>The \<open>forEach\<close> over the suggested changes.\<close>

fun groupInto :: "GroupedSuggestions \<Rightarrow> SuggestedChange list \<Rightarrow> Thrown + GroupedSuggestions" where
  "groupInto grouped [] = Inr grouped"
| "groupInto grouped (change # rest) =
     (if docNameOf change \<in> set objectPrototypeKeys then Inl TypeError
      else groupInto (pushGroup (docNameOf change) change grouped) rest)"

definition groupSuggestions :: "SuggestedChange list \<Rightarrow> Thrown + GroupedSuggestions" where
  "groupSuggestions changes = groupInto [] changes"

subsection \<open>generateGapReview\<close>

definition validationMessage :: string where
  "validationMessage =
     ''Please select at least one Company Document AND at least one Regulatory Input ''
       @ ''to target for the Gap Review.''"

definition parseFailureMessage :: string where
  "parseFailureMessage =
     ''Failed to parse the analysis from the AI. The response was not valid JSON. ''
       @ ''Raw response logged to console.''"

text \<open>The \<open>catch (e)\<close> of the outer \<open>try\<close>, followed by its \<open>finally\<close>.\<close>

definition runFailed :: "string \<Rightarrow> AppState \<Rightarrow> AppState" where
  "runFailed message st =
     st\<lparr>errorMessage := Some (''An error occurred while generating the Gap Review: '' @ message),
        fetchStatus := ERROR,
        challengeNotification := None,
        ingestionStatus := []\<rparr>"

text \<open>The \<open>catch (jsonParseError)\<close> of the inner \<open>try\<close>, followed by the outer \<open>finally\<close>.\<close>

definition parseFailed :: "AppState \<Rightarrow> AppState" where
  "parseFailed st =
     st\<lparr>errorMessage := Some parseFailureMessage,
        fetchStatus := ERROR,
        challengeNotification := None,
        ingestionStatus := []\<rparr>"

text \<open>
  The inner \<open>try\<close>: from the repaired text to the state of a finished run. \<open>st\<close> is the
  state when the generator has answered.
\<close>

definition persistGapReview ::
  "Collaborators \<Rightarrow> AustracUpdate list \<Rightarrow> CompanyDocument list \<Rightarrow> AustracUpdate list \<Rightarrow>
   string list \<Rightarrow> string \<Rightarrow> string \<Rightarrow> string \<Rightarrow> AppState \<Rightarrow> AppState" where
  "persistGapReview env targetedRegulatoryContent targetedCompanyDocs newSummarizedLocalUpdates
       contextualLearningsForChallenge systemPromptText userPromptText jsonStr st =
     (case jsonParse env jsonStr of
        None \<Rightarrow> parseFailed st
      | Some parsed \<Rightarrow>
          (let changes = map (postProcessChange env) (withIndex (raw_suggested_changes parsed));
               plan = map (postProcessItem env) (withIndex (raw_action_plan parsed));
               inputsUsed =
                 (map (\<lambda>d. \<lparr>cs_id = cd_id d, cs_name = cd_name d, cs_type = cd_type d,
                              cs_lastModified = lastModified d, cs_size = size_bytes d\<rparr>)
                    targetedCompanyDocs,
                  map (\<lambda>d. \<lparr>as_id = au_id d, as_title = title d, as_type = au_type d,
                              as_dateAdded = dateAdded d\<rparr>)
                    targetedRegulatoryContent);
               st1 = st\<lparr>currentInputsForChallenge := inputsUsed\<rparr>
           in case groupSuggestions changes of
                Inl thrown \<Rightarrow> parseFailed st1
              | Inr grouped \<Rightarrow>
                  (let parsedResult =
                         \<lparr>suggested_changes = changes, action_plan = plan,
                          groupedSuggestions = Some grouped\<rparr>;
                       newSavedAnalysis =
                         \<lparr>sa_id = freshAnalysisId env,
                          sa_name = ''Gap Review - '' @ localeNow env,
                          sa_timestamp = timestampNow env,
                          sa_type = Challenge,
                          challengeAnalysisResult = Some parsedResult,
                          austracInputsUsedSnapshot = Some (snd inputsUsed),
                          companyDocumentsUsedSnapshot = Some (fst inputsUsed),
                          summarizedAustracUpdatesSnapshot = Some newSummarizedLocalUpdates,
                          learningsAppliedToThisAnalysis = Some contextualLearningsForChallenge,
                          selectedDocumentSnapshot = None,
                          deepDiveAnalysisResult = None,
                          groundingMetadata = None,
                          userPrompt = Some userPromptText,
                          systemPrompt = Some systemPromptText\<rparr>
                   in st1\<lparr>challengeResult := Some parsedResult,
                          savedAnalyses := newSavedAnalysis # savedAnalyses st1,
                          activeAnalysisId := Some (freshAnalysisId env),
                          currentAnalysisPrompts := Some (systemPromptText, userPromptText),
                          fetchStatus := SUCCESS,
                          challengeNotification := None,
                          selectedRegulatoryIdsForGapReview := [],
                          selectedCompanyDocIdsForGapReview := [],
                          ingestionStatus := []\<rparr>)))"

text \<open>
  The whole run: the state when the promise settles, and the calls made. The notifications
  shown while the run is under way are not part of the result; every way out sets
  \<open>challengeNotification\<close> as below.
\<close>

definition generateGapReview ::
  "Collaborators \<Rightarrow> string list \<Rightarrow> string list \<Rightarrow> AppState \<Rightarrow> AppState \<times> Call list" where
  "generateGapReview env targetRegulatoryIds companyDocIds st =
     (if \<not> aiClient env then
        (st\<lparr>errorMessage := Some ''AI client not initialized.'', fetchStatus := ERROR\<rparr>, [])
      else if companyDocIds = [] \<or> targetRegulatoryIds = [] then
        (st\<lparr>errorMessage := Some validationMessage, fetchStatus := IDLE\<rparr>, [])
      else
        (let targetedRegulatoryContent =
               filter (\<lambda>doc. au_id doc \<in> set targetRegulatoryIds) (userAustracContent st);
             targetedCompanyDocs =
               filter (\<lambda>doc. cd_id doc \<in> set companyDocIds) (internalCorpus st);
             st1 = st\<lparr>fetchStatus := LOADING, errorMessage := None, challengeResult := None,
                      summarizedUserAustracUpdates := [],
                      currentInputsForChallenge := ([], []),
                      activeAnalysisId := None, challengeNotification := None,
                      deepDiveAnalysisNotification := None, currentAnalysisPrompts := None\<rparr>;
             uningestedDocsExist =
               (list_ex (\<lambda>d. cd_isProcessedForRag d \<noteq> Some True) targetedCompanyDocs
                \<or> list_ex (\<lambda>d. au_isProcessedForRag d \<noteq> Some True) targetedRegulatoryContent);
             (st2, ingestCalls) =
               (if uningestedDocsExist then ingestAllUnprocessedDocuments env False st1
                else (st1, []));
             allPastLearnings =
               extractLearningsFromFeedback
                 (filter (\<lambda>sa. sa_type sa = Challenge) (savedAnalyses st)) None;
             contextualLearningsForChallenge =
               selectContextualLearningsForChallengePrompt allPastLearnings targetedCompanyDocs 7;
             systemPromptText = systemPromptOf contextualLearningsForChallenge;
             newSummarizedLocalUpdates = map (summarizeUpdate env) targetedRegulatoryContent;
             summaryCalls = map (\<lambda>u. GeneratorCall (summaryPrompt u)) targetedRegulatoryContent;
             st3 = st2\<lparr>summarizedUserAustracUpdates := newSummarizedLocalUpdates\<rparr>;
             query = combinedQueryForRag newSummarizedLocalUpdates targetedCompanyDocs;
             retrieverCall = RetrieverCall query (RAG_TOP_K_CHUNKS_ANALYSIS env)
         in case retrieveContextFromVertexAI env query (RAG_TOP_K_CHUNKS_ANALYSIS env) of
              Inl message \<Rightarrow>
                (runFailed message st3, ingestCalls @ summaryCalls @ [retrieverCall])
            | Inr relevantChunks \<Rightarrow>
                (let userPromptText =
                       userPromptOf targetedRegulatoryContent targetedCompanyDocs
                         newSummarizedLocalUpdates relevantChunks;
                     calls = ingestCalls @ summaryCalls
                               @ [retrieverCall, GeneratorCall (systemPromptText @ userPromptText)]
                 in case generateContent env (systemPromptText @ userPromptText) True of
                      Inl message \<Rightarrow> (runFailed message st3, calls)
                    | Inr responseText \<Rightarrow>
                        (persistGapReview env targetedRegulatoryContent targetedCompanyDocs
                           newSummarizedLocalUpdates contextualLearningsForChallenge
                           systemPromptText userPromptText (repairResponseText responseText) st3,
                         calls))))"

subsection \<open>generateGapReview of the backend variant (frontend/src/App.tsx)\<close>

text \<open>
  The variant that hands the whole analysis to a backend has no AI client of its own:
  the validation is its first statement. Its one collaborator is
  \<open>generateGapReviewInBackend\<close>, which answers with the finished SavedAnalysis.
\<close>

definition generateGapReviewViaBackend ::
  "(string list \<Rightarrow> string list \<Rightarrow> AppState \<Rightarrow> string + SavedAnalysis) \<Rightarrow>
   string list \<Rightarrow> string list \<Rightarrow> AppState \<Rightarrow> AppState \<times> nat" where
  "generateGapReviewViaBackend generateGapReviewInBackend targetRegulatoryIds companyDocIds st =
     (if companyDocIds = [] \<or> targetRegulatoryIds = [] then
        (st\<lparr>errorMessage := Some validationMessage, fetchStatus := IDLE\<rparr>, 0)
      else
        (let st1 = st\<lparr>fetchStatus := LOADING, errorMessage := None, challengeResult := None,
                      summarizedUserAustracUpdates := [],
                      currentInputsForChallenge := ([], []),
                      activeAnalysisId := None, currentAnalysisPrompts := None,
                      deepDiveAnalysisNotification := None\<rparr>
         in case generateGapReviewInBackend targetRegulatoryIds companyDocIds st of
              Inl message \<Rightarrow>
                (st1\<lparr>errorMessage :=
                        Some (''An error occurred while generating the Gap Review: '' @ message),
                      fetchStatus := ERROR, challengeNotification := None\<rparr>, 1)
            | Inr newSavedAnalysis \<Rightarrow>
                (st1\<lparr>challengeResult := challengeAnalysisResult newSavedAnalysis,
                      summarizedUserAustracUpdates :=
                        (case summarizedAustracUpdatesSnapshot newSavedAnalysis of
                           None \<Rightarrow> [] | Some l \<Rightarrow> l),
                      currentInputsForChallenge :=
                        ((case companyDocumentsUsedSnapshot newSavedAnalysis of
                            None \<Rightarrow> [] | Some l \<Rightarrow> l),
                         (case austracInputsUsedSnapshot newSavedAnalysis of
                            None \<Rightarrow> [] | Some l \<Rightarrow> l)),
                      currentAnalysisPrompts :=
                        (case (systemPrompt newSavedAnalysis, userPrompt newSavedAnalysis) of
                           (Some sp, Some up) \<Rightarrow> if sp \<noteq> [] \<and> up \<noteq> [] then Some (sp, up) else None
                         | _ \<Rightarrow> None),
                      savedAnalyses := sortByTimestampDesc (newSavedAnalysis # savedAnalyses st),
                      activeAnalysisId := Some (sa_id newSavedAnalysis),
                      fetchStatus := SUCCESS, challengeNotification := None,
                      selectedRegulatoryIdsForGapReview := [],
                      selectedCompanyDocIdsForGapReview := []\<rparr>, 1)))"

section \<open>Predicates and closed forms used in the statements\<close>


text \<open>
  The qualification rule in the words of the specification: the status is "Actioned", or
  the adopted text is not empty, or the status is "Not Applicable" and the notes are not
  empty after trimming.
\<close>

definition qualifiesPerSpec :: "UserFeedback \<Rightarrow> bool" where
  "qualifiesPerSpec fb =
     (status fb = Some ''Actioned''
      \<or> (\<exists>t. finalAdoptedText fb = Some t \<and> t \<noteq> [])
      \<or> (status fb = Some ''Not Applicable'' \<and> (\<exists>n. fb_notes fb = Some n \<and> trim n \<noteq> [])))"

text \<open>
  Closed forms of the two loops of \<open>extractLearningsFromFeedback\<close>, used to state what
  they compute: the learnings one change and one analysis contribute, and the cut a
  maximum makes (\<open>k\<close> is the number of learnings already collected).
\<close>

definition capAt :: "nat option \<Rightarrow> nat \<Rightarrow> string list \<Rightarrow> string list" where
  "capAt m k full = (case m of None \<Rightarrow> full | Some n \<Rightarrow> take (max n k) full)"

definition learningsOfChange :: "SavedAnalysis \<Rightarrow> SuggestedChange \<Rightarrow> string list" where
  "learningsOfChange a c = pushLearning a c []"

definition learningsOfAnalysis :: "SavedAnalysis \<Rightarrow> string list" where
  "learningsOfAnalysis a =
     concat (map (learningsOfChange a) (case resultSourceChanges a of None \<Rightarrow> [] | Some cs \<Rightarrow> cs))"

section \<open>Well-formed JSON texts\<close>

text \<open>
  \<open>JSON.parse\<close> belongs to the platform, not to the repository. To say which texts are
  well-formed, this is a recognizer for the JSON grammar of ECMA-404: \<open>isJsonText s\<close> holds
  when \<open>s\<close> is one JSON value with optional white space around it. Each function is handed
  the text at the point it reads from and returns the text it leaves. The nesting of
  arrays and objects is followed with a counter that starts above twice the length of
  the text, which no text can use up.
\<close>

definition isJsonWs :: "char \<Rightarrow> bool" where
  "isJsonWs c = (c = CHR 0x20 \<or> c = CHR 0x09 \<or> c = CHR 0x0A \<or> c = CHR 0x0D)"

definition isHexDigit :: "char \<Rightarrow> bool" where
  "isHexDigit c =
     (isDigit c \<or> (97 \<le> codeUnit c \<and> codeUnit c \<le> 102) \<or> (65 \<le> codeUnit c \<and> codeUnit c \<le> 70))"

text \<open>The characters of a string after its opening quote, up to the closing quote.\<close>

fun jsonString :: "string \<Rightarrow> string option" where
  "jsonString [] = None"
| "jsonString (c # cs) =
     (if c = CHR 0x22 then Some cs
      else if c = CHR 0x5C then
        (case cs of
           [] \<Rightarrow> None
         | e # r \<Rightarrow>
             if e \<in> set [CHR 0x22, CHR 0x5C, CHR ''/'', CHR ''b'', CHR ''f'', CHR ''n'', CHR ''r'', CHR ''t'']
             then jsonString r
             else if e = CHR ''u'' then
               (case r of
                  h1 # h2 # h3 # h4 # r' \<Rightarrow>
                    if isHexDigit h1 \<and> isHexDigit h2 \<and> isHexDigit h3 \<and> isHexDigit h4
                    then jsonString r' else None
                | _ \<Rightarrow> None)
             else None)
      else if codeUnit c < 32 then None
      else jsonString cs)"

text \<open>One or more digits.\<close>

definition jsonDigits :: "string \<Rightarrow> string option" where
  "jsonDigits s =
     (case s of [] \<Rightarrow> None | c # r \<Rightarrow> if isDigit c then Some (dropWhile isDigit r) else None)"

text \<open>\<open>-? (0 | [1-9][0-9]*) (\.[0-9]+)? ([eE][+-]?[0-9]+)?\<close>\<close>

definition jsonNumber :: "string \<Rightarrow> string option" where
  "jsonNumber s =
     (case (case s of [] \<Rightarrow> [] | c # r \<Rightarrow> if c = CHR ''-'' then r else s) of
        [] \<Rightarrow> None
      | c # r \<Rightarrow>
          (case (if c = CHR ''0'' then Some r
                 else if isDigit c then Some (dropWhile isDigit r) else None) of
             None \<Rightarrow> None
           | Some s2 \<Rightarrow>
               (case (case s2 of
                        [] \<Rightarrow> Some s2
                      | d # r2 \<Rightarrow> if d = CHR ''.'' then jsonDigits r2 else Some s2) of
                  None \<Rightarrow> None
                | Some s3 \<Rightarrow>
                    (case s3 of
                       [] \<Rightarrow> Some s3
                     | e # r3 \<Rightarrow>
                         if e = CHR ''e'' \<or> e = CHR ''E'' then
                           (case r3 of
                              [] \<Rightarrow> None
                            | sg # r4 \<Rightarrow>
                                if sg = CHR ''+'' \<or> sg = CHR ''-'' then jsonDigits r4
                                else jsonDigits r3)
                         else Some s3))))"

text \<open>
  A value, the elements of an array after \<open>[\<close>, and the members of an object after \<open>{\<close>
  (both not empty, white space already skipped).
\<close>

fun jsonValue :: "nat \<Rightarrow> string \<Rightarrow> string option"
  and jsonElements :: "nat \<Rightarrow> string \<Rightarrow> string option"
  and jsonMembers :: "nat \<Rightarrow> string \<Rightarrow> string option" where
  "jsonValue 0 s = None"
| "jsonValue (Suc n) s =
     (case s of
        [] \<Rightarrow> None
      | c # r \<Rightarrow>
          if c = CHR ''{'' then
            (case dropWhile isJsonWs r of
               [] \<Rightarrow> None
             | c2 # r2 \<Rightarrow> if c2 = CHR ''}'' then Some r2 else jsonMembers n (c2 # r2))
          else if c = CHR ''['' then
            (case dropWhile isJsonWs r of
               [] \<Rightarrow> None
             | c2 # r2 \<Rightarrow> if c2 = CHR '']'' then Some r2 else jsonElements n (c2 # r2))
          else if c = CHR 0x22 then jsonString r
          else
            (case stripPrefix ''true'' s of
               Some t \<Rightarrow> Some t
             | None \<Rightarrow>
                 (case stripPrefix ''false'' s of
                    Some t \<Rightarrow> Some t
                  | None \<Rightarrow>
                      (case stripPrefix ''null'' s of
                         Some t \<Rightarrow> Some t
                       | None \<Rightarrow> jsonNumber s))))"
| "jsonElements 0 s = None"
| "jsonElements (Suc n) s =
     (case jsonValue n s of
        None \<Rightarrow> None
      | Some r \<Rightarrow>
          (case dropWhile isJsonWs r of
             [] \<Rightarrow> None
           | c # r2 \<Rightarrow>
               if c = CHR '','' then jsonElements n (dropWhile isJsonWs r2)
               else if c = CHR '']'' then Some r2
               else None))"
| "jsonMembers 0 s = None"
| "jsonMembers (Suc n) s =
     (case s of
        [] \<Rightarrow> None
      | c # r \<Rightarrow>
          if c = CHR 0x22 then
            (case jsonString r of
               None \<Rightarrow> None
             | Some r1 \<Rightarrow>
                 (case dropWhile isJsonWs r1 of
                    [] \<Rightarrow> None
                  | c2 # r2 \<Rightarrow>
                      if c2 = CHR '':'' then
                        (case jsonValue n (dropWhile isJsonWs r2) of
                           None \<Rightarrow> None
                         | Some r3 \<Rightarrow>
                             (case dropWhile isJsonWs r3 of
                                [] \<Rightarrow> None
                              | c3 # r4 \<Rightarrow>
                                  if c3 = CHR '','' then jsonMembers n (dropWhile isJsonWs r4)
                                  else if c3 = CHR ''}'' then Some r4
                                  else None))
                      else None))
          else None)"

definition isJsonText :: "string \<Rightarrow> bool" where
  "isJsonText s =
     (case jsonValue (2 * length s + 2) (dropWhile isJsonWs s) of
        None \<Rightarrow> False
      | Some r \<Rightarrow> dropWhile isJsonWs r = [])"

text \<open>
  The number of commas and of double quotes in a text: the rewrites of the repair change
  them in one direction only.
\<close>

definition commas :: "string \<Rightarrow> nat" where
  "commas s = length (filter (\<lambda>c. c = CHR '','') s)"

definition quotes :: "string \<Rightarrow> nat" where
  "quotes s = length (filter (\<lambda>c. c = CHR 0x22) s)"

text \<open>
  The text of a timeline field up to the value that follows it: the key, spaces, the
  quoted value, the comma and spaces.
\<close>

definition timelineField :: "string \<Rightarrow> string \<Rightarrow> string \<Rightarrow> string" where
  \<open>timelineField ws1 val ws2 = ''"timeline":'' @ ws1 @ ''"'' @ val @ ''",'' @ ws2\<close>

text \<open>
  The text before a field does not end with a quote and one of the three priority words:
  otherwise the quote that opens the field's key would close that word, and a match ending
  there would swallow it.
\<close>

definition notAfterPriorityWord :: "string \<Rightarrow> bool" where
  "notAfterPriorityWord pre =
     (\<not> suffix (CHR 0x22 # ''High'') pre \<and> \<not> suffix (CHR 0x22 # ''Medium'') pre
      \<and> \<not> suffix (CHR 0x22 # ''Low'') pre)"

section \<open>Relevance and deduplication key of a learning\<close>

text \<open>
  The fragment of a learning is the first group of \<open>/regarding '(.*?)'/\<close>, lower-cased,
  or the empty string without a match. A learning is relevant to the target documents when
  its fragment is not empty and contains the lower-cased name of one of them. Its key is
  the fragment followed by its core content. \<open>firstOfEachKey\<close> keeps the first element of
  each key not yet seen.
\<close>

definition docSectionFragment :: "string \<Rightarrow> string" where
  "docSectionFragment learningString =
     (case docSectionMatch learningString of None \<Rightarrow> [] | Some g \<Rightarrow> toLowerCase g)"

definition learningRelevant :: "CompanyDocument list \<Rightarrow> string \<Rightarrow> bool" where
  "learningRelevant docs learningString =
     (docSectionFragment learningString \<noteq> []
      \<and> list_ex (\<lambda>d. jsIncludes (docSectionFragment learningString) (toLowerCase (cd_name d))) docs)"

definition learningKey :: "string \<Rightarrow> string" where
  "learningKey learningString =
     docSectionFragment learningString @ coreLearningContent learningString"

fun firstOfEachKey :: "('a \<Rightarrow> 'k) \<Rightarrow> 'k list \<Rightarrow> 'a list \<Rightarrow> 'a list" where
  "firstOfEachKey key seen [] = []"
| "firstOfEachKey key seen (x # xs) =
     (if key x \<in> set seen then firstOfEachKey key seen xs
      else x # firstOfEachKey key (seen @ [key x]) xs)"

section \<open>Targeted chunks\<close>

text \<open>
  A chunk is targeted for the regulatory section when it is of the regulatory type and its
  document id is among the target regulatory ids; for the company section when it is of
  the company type and its document id is among the target company document ids.
  \<open>dropUntargeted\<close> is the environment whose retriever returns only the targeted chunks of
  what the given retriever returns.
\<close>

definition regulatoryChunkTargeted :: "string list \<Rightarrow> DocumentChunk \<Rightarrow> bool" where
  "regulatoryChunkTargeted targetRegulatoryIds c =
     (documentType c = AustracChunk \<and> documentId c \<in> set targetRegulatoryIds)"

definition companyChunkTargeted :: "string list \<Rightarrow> DocumentChunk \<Rightarrow> bool" where
  "companyChunkTargeted companyDocIds c =
     (documentType c = CompanyChunk \<and> documentId c \<in> set companyDocIds)"

definition dropUntargeted :: "string list \<Rightarrow> string list \<Rightarrow> Collaborators \<Rightarrow> Collaborators" where
  "dropUntargeted targetRegulatoryIds companyDocIds env =
     env\<lparr>retrieveContextFromVertexAI :=
           (\<lambda>query k.
              case retrieveContextFromVertexAI env query k of
                Inl message \<Rightarrow> Inl message
              | Inr chunks \<Rightarrow>
                  Inr (filter (\<lambda>c. regulatoryChunkTargeted targetRegulatoryIds c
                                     \<or> companyChunkTargeted companyDocIds c) chunks))\<rparr>"

section \<open>Sample values\<close>

text \<open>Concrete values at which the theorems below are instantiated.\<close>

definition demoFeedback :: "string option \<Rightarrow> string option \<Rightarrow> string option \<Rightarrow> UserFeedback" where
  "demoFeedback st nt adopted =
     \<lparr>status = st, fb_notes = nt, lastUpdated = ''2025-01-01T00:00:00.000Z'',
      finalAdoptedText = adopted\<rparr>"

definition demoChange :: "string \<Rightarrow> string option \<Rightarrow> UserFeedback option \<Rightarrow> SuggestedChange" where
  "demoChange i doc fb =
     \<lparr>sc_id = i, document_section = ''Policy A.pdf'', current_status_summary = ''Outdated'',
      austrac_relevance = ''Rule 4'', suggested_modification = ''Add a review step'',
      priority = High, sc_userFeedback = fb, source_document_name = doc\<rparr>"

definition demoChallengeResult :: "SuggestedChange list \<Rightarrow> ChallengeAnalysisResult" where
  "demoChallengeResult changes =
     \<lparr>suggested_changes = changes, action_plan = [], groupedSuggestions = None\<rparr>"

definition demoDeepDiveResult :: "SuggestedChange list \<Rightarrow> DeepDiveAnalysisResult" where
  "demoDeepDiveResult changes =
     \<lparr>documentTitleAnalyzed = ''Policy A.pdf'', overallSummary = ''Sound'',
      keyThemesAndTopics = [], dd_suggested_changes = changes, dd_action_plan = [],
      additionalObservations = None, referencedRegulatoryInputs = None\<rparr>"

definition demoAnalysis ::
  "string \<Rightarrow> int \<Rightarrow> AnalysisType \<Rightarrow> ChallengeAnalysisResult option \<Rightarrow>
   DeepDiveAnalysisResult option \<Rightarrow> SavedAnalysis" where
  "demoAnalysis i t ty cr dr =
     \<lparr>sa_id = i, sa_name = ''Gap Review - 1/1/2025'', sa_timestamp = t, sa_type = ty,
      challengeAnalysisResult = cr, austracInputsUsedSnapshot = None,
      companyDocumentsUsedSnapshot = None, summarizedAustracUpdatesSnapshot = None,
      learningsAppliedToThisAnalysis = None, selectedDocumentSnapshot = None,
      deepDiveAnalysisResult = dr, groundingMetadata = None,
      userPrompt = Some ''user'', systemPrompt = Some ''system''\<rparr>"

definition demoState :: "SavedAnalysis list \<Rightarrow> string option \<Rightarrow> AppState" where
  "demoState store active =
     \<lparr>userAustracContent = [], internalCorpus = [],
      challengeResult = Some (demoChallengeResult []), summarizedUserAustracUpdates = [],
      currentInputsForChallenge = ([], []), selectedRegulatoryIdsForGapReview = [],
      selectedCompanyDocIdsForGapReview = [], fetchStatus = SUCCESS, errorMessage = None,
      savedAnalyses = store, activeAnalysisId = active, challengeNotification = None,
      deepDiveAnalysisNotification = None, ingestionStatus = [],
      selectedDocForDeepDiveId = None, deepDiveResult = None, deepDiveFetchStatus = IDLE,
      deepDiveError = None, deepDiveGroundingMetadata = None,
      currentAnalysisPrompts = Some (''system'', ''user'')\<rparr>"

definition demoStore :: "SavedAnalysis list" where
  "demoStore =
     [demoAnalysis ''analysis-2'' 20 Challenge (Some (demoChallengeResult [])) None,
      demoAnalysis ''analysis-1'' 10 DeepDive None (Some (demoDeepDiveResult []))]"



definition adoptedOnlyStore :: "SavedAnalysis list" where
  "adoptedOnlyStore =
     [demoAnalysis ''analysis-4'' 40 Challenge
        (Some (demoChallengeResult
           [demoChange ''sc-1'' None (Some (demoFeedback None None (Some ''Final wording'')))]))
        None]"

definition feedbackStore :: "SavedAnalysis list" where
  "feedbackStore =
     [demoAnalysis ''analysis-5'' 50 Challenge
        (Some (demoChallengeResult
           [demoChange ''sc-1'' None (Some (demoFeedback (Some ''Pending Review'') None None)),
            demoChange ''sc-2'' None (Some (demoFeedback (Some ''Actioned'') None None)),
            demoChange ''sc-3'' None
              (Some (demoFeedback (Some ''Not Applicable'') (Some '' '') None))]))
        None]"

definition demoLearning :: "string \<Rightarrow> string" where
  "demoLearning section =
     learningPoint (demoAnalysis ''analysis-2'' 20 Challenge None None)
       ((demoChange ''sc-1'' None None)\<lparr>document_section := section\<rparr>)
       (demoFeedback (Some ''Actioned'') None None)"

definition demoDoc :: "string \<Rightarrow> string \<Rightarrow> CompanyDocument" where
  "demoDoc i n =
     \<lparr>cd_id = i, cd_name = n, textContent = ''Text of the policy'', cd_type = Pdf,
      lastModified = 0, size_bytes = 18, cd_isProcessedForRag = Some True\<rparr>"

text \<open>
  Collaborators that answer at once: a generator that returns \<open>{}\<close>, a parser that reads
  the given suggested changes out of any text, a retriever that returns the given chunks.
\<close>

definition demoEnv :: "bool \<Rightarrow> RawSuggestedChange list \<Rightarrow> DocumentChunk list \<Rightarrow> Collaborators" where
  "demoEnv ready changes chunks =
     \<lparr>aiClient = ready,
      generateContent = (\<lambda>prompt json. Inr ''{}''),
      retrieveContextFromVertexAI = (\<lambda>query k. Inr chunks),
      ingestDocumentToVertexAI = (\<lambda>docId. Inr True),
      jsonParse = (\<lambda>s. Some \<lparr>raw_suggested_changes = Some changes, raw_action_plan = None\<rparr>),
      RAG_TOP_K_CHUNKS_ANALYSIS = 5,
      freshChangeId = (\<lambda>index. ''sc-new''),
      freshActionId = (\<lambda>index. ''ap-new''),
      freshAnalysisId = ''analysis-new'',
      localeNow = ''1/2/2025, 10:00:00 AM'',
      timestampNow = 100\<rparr>"

definition demoChunk :: "string \<Rightarrow> string \<Rightarrow> ChunkType \<Rightarrow> string \<Rightarrow> DocumentChunk" where
  "demoChunk i n ty t =
     \<lparr>dc_id = i @ ''-chunk-0'', documentId = i, documentName = n, documentType = ty,
      dc_text = t, dc_keywords = [], charCount = length t\<rparr>"

definition demoUpdate :: "string \<Rightarrow> string \<Rightarrow> AustracUpdate" where
  "demoUpdate i t =
     \<lparr>au_id = i, title = t, rawContent = ''Text of the rule'', au_type = Pasted,
      dateAdded = ''2025-01-01T00:00:00.000Z'', au_isProcessedForRag = Some True,
      summary = None\<rparr>"

definition demoContent :: "AustracUpdate list" where
  "demoContent = [demoUpdate ''au-1'' ''Rule 4'', demoUpdate ''au-2'' ''Rule 5'']"

definition demoCorpus :: "CompanyDocument list" where
  "demoCorpus = [demoDoc ''doc-a'' ''Policy A.pdf'', demoDoc ''doc-b'' ''Policy B.pdf'']"

definition demoChunks :: "DocumentChunk list" where
  "demoChunks =
     [demoChunk ''au-1'' ''Rule 4'' AustracChunk ''Targeted rule text'',
      demoChunk ''au-2'' ''Rule 5'' AustracChunk ''Untargeted rule text'',
      demoChunk ''doc-a'' ''Policy A.pdf'' CompanyChunk ''Targeted policy text'',
      demoChunk ''doc-b'' ''Policy B.pdf'' CompanyChunk ''Untargeted policy text'',
      demoChunk ''doc-a'' ''Policy A.pdf'' AustracChunk ''Mistyped text'']"

definition demoRawChange :: "string option \<Rightarrow> RawSuggestedChange" where
  "demoRawChange doc =
     \<lparr>raw_source_document_name = doc, raw_document_section = Some ''Section 2'',
      raw_current_status_summary = Some ''Outdated'', raw_austrac_relevance = Some ''Rule 4'',
      raw_suggested_modification = Some ''Add a review step'', raw_priority = Some ''High'',
      raw_sc_userFeedback = None\<rparr>"

definition demoChanges :: "SuggestedChange list" where
  "demoChanges =
     [demoChange ''sc-1'' (Some ''Policy A.pdf'') None,
      demoChange ''sc-2'' None None,
      demoChange ''sc-3'' (Some ''Policy A.pdf'') None,
      demoChange ''sc-4'' (Some []) None]"

definition demoGroups :: GroupedSuggestions where
  "demoGroups =
     [(''Policy A.pdf'',
         [demoChange ''sc-1'' (Some ''Policy A.pdf'') None,
          demoChange ''sc-3'' (Some ''Policy A.pdf'') None]),
      (''General'', [demoChange ''sc-2'' None None, demoChange ''sc-4'' (Some []) None])]"

definition demoGapState :: AppState where
  "demoGapState =
     (demoState demoStore None)\<lparr>userAustracContent := demoContent, internalCorpus := demoCorpus\<rparr>"

section \<open>Properties of the analysis store\<close>

subsection \<open>Rename\<close>

lemma rename_map_id:
  "idToRename \<notin> sa_id ` set sas \<Longrightarrow>
   map (\<lambda>sa. if sa_id sa = idToRename then sa\<lparr>sa_name := newName\<rparr> else sa) sas = sas"
  by (induction sas) auto

text \<open>
  Claim C10. Renaming a saved analysis replaces only its name: position by position, the
  store after the rename holds the same analysis as before, with the new name when its id
  is the renamed one. Hence every other field (timestamp, type, both results with their
  feedback, the input snapshots, the stored prompts) and the order of the store are
  unchanged, nothing outside the store changes, and renaming an id that is not in the
  store changes nothing at all.
\<close>

theorem rename_frame:
  "length (savedAnalyses (handleRenameAnalysis i n st)) = length (savedAnalyses st)
   \<and> (\<forall>k < length (savedAnalyses st).
        savedAnalyses (handleRenameAnalysis i n st) ! k =
          (if sa_id (savedAnalyses st ! k) = i
           then (savedAnalyses st ! k)\<lparr>sa_name := n\<rparr> else savedAnalyses st ! k))
   \<and> map (\<lambda>sa. sa\<lparr>sa_name := []\<rparr>) (savedAnalyses (handleRenameAnalysis i n st))
       = map (\<lambda>sa. sa\<lparr>sa_name := []\<rparr>) (savedAnalyses st)
   \<and> map sa_id (savedAnalyses (handleRenameAnalysis i n st)) = map sa_id (savedAnalyses st)
   \<and> map sa_timestamp (savedAnalyses (handleRenameAnalysis i n st))
       = map sa_timestamp (savedAnalyses st)
   \<and> (handleRenameAnalysis i n st)\<lparr>savedAnalyses := savedAnalyses st\<rparr> = st
   \<and> (i \<notin> sa_id ` set (savedAnalyses st) \<longrightarrow> handleRenameAnalysis i n st = st)"
proof -
  let ?f = "\<lambda>sa::SavedAnalysis. if sa_id sa = i then sa\<lparr>sa_name := n\<rparr> else sa"
  have new: "savedAnalyses (handleRenameAnalysis i n st) = map ?f (savedAnalyses st)"
    by (simp add: handleRenameAnalysis_def)
  have erased: "map (\<lambda>sa. sa\<lparr>sa_name := []\<rparr>) (map ?f sas) = map (\<lambda>sa. sa\<lparr>sa_name := []\<rparr>) sas"
    for sas :: "SavedAnalysis list" by (induction sas) auto
  have ids: "map sa_id (map ?f sas) = map sa_id sas" for sas :: "SavedAnalysis list"
    by (induction sas) auto
  have times: "map sa_timestamp (map ?f sas) = map sa_timestamp sas"
    for sas :: "SavedAnalysis list"
    by (induction sas) auto
  have frame: "(handleRenameAnalysis i n st)\<lparr>savedAnalyses := savedAnalyses st\<rparr> = st"
    by (simp add: handleRenameAnalysis_def)
  have absent: "i \<notin> sa_id ` set (savedAnalyses st) \<longrightarrow> handleRenameAnalysis i n st = st"
    by (simp add: handleRenameAnalysis_def rename_map_id)
  show ?thesis
    unfolding new using erased ids times frame absent by simp
qed

theorem rename_frame_witness:
  "0 < length (savedAnalyses (demoState demoStore None))
   \<and> savedAnalyses (handleRenameAnalysis ''analysis-2'' ''Renamed'' (demoState demoStore None)) ! 0
       = (savedAnalyses (demoState demoStore None) ! 0)\<lparr>sa_name := ''Renamed''\<rparr>
   \<and> ''analysis-9'' \<notin> sa_id ` set (savedAnalyses (demoState demoStore None))
   \<and> handleRenameAnalysis ''analysis-9'' ''Renamed'' (demoState demoStore None)
       = demoState demoStore None"
  using rename_frame [of "''analysis-2''" "''Renamed''" "demoState demoStore None"]
    rename_frame [of "''analysis-9''" "''Renamed''" "demoState demoStore None"]
  by (simp add: demoState_def demoStore_def demoAnalysis_def)

subsection \<open>Delete\<close>





subsection \<open>Merging feedback\<close>











section \<open>Properties of the learning extraction\<close>

lemma pushLearning_append: "pushLearning a c ls = ls @ learningsOfChange a c"
  by (simp add: pushLearning_def learningsOfChange_def split: option.splits)

lemma length_learningsOfChange: "length (learningsOfChange a c) \<le> 1"
  by (simp add: pushLearning_def learningsOfChange_def split: option.splits)

lemma scanChanges_eq:
  "scanChanges m a cs ls = capAt m (length ls) (ls @ concat (map (learningsOfChange a) cs))"
proof (induction cs arbitrary: ls)
  case Nil
  then show ?case by (simp add: capAt_def split: option.splits)
next
  case (Cons c cs)
  show ?case
  proof (cases "reachedMax m ls")
    case True
    then show ?thesis by (auto simp: reachedMax_def capAt_def max_def split: option.splits)
  next
    case False
    have "scanChanges m a (c # cs) ls = scanChanges m a cs (ls @ learningsOfChange a c)"
      using False by (simp add: pushLearning_append)
    also have "\<dots> = capAt m (length (ls @ learningsOfChange a c))
                     ((ls @ learningsOfChange a c) @ concat (map (learningsOfChange a) cs))"
      by (rule Cons.IH)
    also have "\<dots> = capAt m (length ls) (ls @ concat (map (learningsOfChange a) (c # cs)))"
      using False length_learningsOfChange [of a c]
      by (auto simp: reachedMax_def capAt_def max_def split: option.splits)
    finally show ?thesis .
  qed
qed

lemma scanAnalyses_eq:
  "scanAnalyses m as ls = capAt m (length ls) (ls @ concat (map learningsOfAnalysis as))"
proof (induction as arbitrary: ls)
  case Nil
  then show ?case by (simp add: capAt_def split: option.splits)
next
  case (Cons a as)
  define ls' where "ls' = capAt m (length ls) (ls @ learningsOfAnalysis a)"
  have inner: "(case resultSourceChanges a of None \<Rightarrow> ls
                | Some changes \<Rightarrow> scanChanges m a changes ls) = ls'"
    by (auto simp: ls'_def learningsOfAnalysis_def scanChanges_eq capAt_def
        split: option.splits)
  have step: "scanAnalyses m (a # as) ls
                = (if reachedMax m ls' then ls' else scanAnalyses m as ls')"
    by (simp add: inner Let_def)
  show ?case
  proof (cases m)
    case None
    then have "ls' = ls @ learningsOfAnalysis a" by (simp add: ls'_def capAt_def)
    then show ?thesis
      unfolding step using Cons.IH [of ls'] None by (simp add: reachedMax_def capAt_def)
  next
    case (Some n)
    show ?thesis
    proof (cases "n \<le> length ls")
      case True
      then have "ls' = ls" by (simp add: ls'_def capAt_def Some max_def)
      then show ?thesis
        unfolding step using True by (simp add: reachedMax_def Some capAt_def max_def)
    next
      case False
      then have ls': "ls' = take n (ls @ learningsOfAnalysis a)"
        by (simp add: ls'_def capAt_def Some max_def)
      show ?thesis
      proof (cases "n \<le> length (ls @ learningsOfAnalysis a)")
        case True
        then have "reachedMax m ls'" by (simp add: reachedMax_def Some ls')
        then show ?thesis
          unfolding step using True False by (simp add: capAt_def Some max_def ls')
      next
        case False2: False
        then have eq: "ls' = ls @ learningsOfAnalysis a" by (simp add: ls')
        have "\<not> reachedMax m ls'" using False2 by (simp add: reachedMax_def Some eq)
        then show ?thesis
          unfolding step using Cons.IH [of ls'] False False2
          by (simp add: capAt_def Some max_def eq)
      qed
    qed
  qed
qed

lemma trim_Nil: "trim [] = []"
  by (simp add: trim_def)

lemma feedbackQualifies_iff:
  "feedbackQualifies fb \<longleftrightarrow> (\<exists>s. status fb = Some s \<and> s \<noteq> []) \<and> qualifiesPerSpec fb"
  by (auto simp: feedbackQualifies_def qualifiesPerSpec_def truthy_def trim_Nil
      split: option.splits)

lemma learningsOfChange_eq:
  "learningsOfChange a c =
     concat (map (\<lambda>fb. if (\<exists>s. status fb = Some s \<and> s \<noteq> [])
                           \<and> (status fb = Some ''Actioned''
                               \<or> (\<exists>t. finalAdoptedText fb = Some t \<and> t \<noteq> [])
                               \<or> (status fb = Some ''Not Applicable''
                                   \<and> (\<exists>n. fb_notes fb = Some n \<and> trim n \<noteq> [])))
                        then [learningPoint a c fb] else [])
               (case sc_userFeedback c of None \<Rightarrow> [] | Some fb \<Rightarrow> [fb]))"
  using feedbackQualifies_iff
  by (cases "sc_userFeedback c")
     (simp_all add: learningsOfChange_def pushLearning_def qualifiesPerSpec_def)

text \<open>
  Claim C1, as amended. Without a maximum, the learnings are exactly those of the feedback
  items that have a status set (defined and not empty) and whose status is "Actioned", or
  whose adopted text is not empty, or whose status is "Not Applicable" with notes that are
  not empty after trimming: one learning per such item, over the analyses from the newest
  to the oldest and the changes of each in their order. A maximum keeps the first \<open>n\<close> of
  them. The condition of the code is the rule of the specification together with the
  requirement that a status is set. An item with status "Pending Review" and neither
  notes nor adopted text never qualifies.
\<close>

theorem extract_learnings_qualification:
  "extractLearningsFromFeedback analyses None =
     [learningPoint a c fb.
        a \<leftarrow> sortByTimestampDesc analyses,
        c \<leftarrow> (case resultSourceChanges a of None \<Rightarrow> [] | Some cs \<Rightarrow> cs),
        fb \<leftarrow> (case sc_userFeedback c of None \<Rightarrow> [] | Some fb \<Rightarrow> [fb]),
        (\<exists>s. status fb = Some s \<and> s \<noteq> [])
        \<and> (status fb = Some ''Actioned''
            \<or> (\<exists>t. finalAdoptedText fb = Some t \<and> t \<noteq> [])
            \<or> (status fb = Some ''Not Applicable''
                \<and> (\<exists>n. fb_notes fb = Some n \<and> trim n \<noteq> [])))]
   \<and> (\<forall>n. extractLearningsFromFeedback analyses (Some n)
            = take n (extractLearningsFromFeedback analyses None))
   \<and> (\<forall>fb. feedbackQualifies fb
            = ((\<exists>s. status fb = Some s \<and> s \<noteq> []) \<and> qualifiesPerSpec fb))
   \<and> (\<forall>u. \<not> feedbackQualifies
               \<lparr>status = Some ''Pending Review'', fb_notes = None, lastUpdated = u,
                finalAdoptedText = None\<rparr>)
   \<and> (\<forall>u. \<not> feedbackQualifies
               \<lparr>status = Some ''Pending Review'', fb_notes = Some [], lastUpdated = u,
                finalAdoptedText = Some []\<rparr>)"
proof -
  have full: "extractLearningsFromFeedback analyses None
                = concat (map learningsOfAnalysis (sortByTimestampDesc analyses))"
    by (simp add: extractLearningsFromFeedback_def scanAnalyses_eq capAt_def)
  have capped: "extractLearningsFromFeedback analyses (Some n)
                = take n (extractLearningsFromFeedback analyses None)" for n
    by (simp add: extractLearningsFromFeedback_def scanAnalyses_eq capAt_def)
  have shape: "concat (map learningsOfAnalysis xs) =
     [learningPoint a c fb.
        a \<leftarrow> xs,
        c \<leftarrow> (case resultSourceChanges a of None \<Rightarrow> [] | Some cs \<Rightarrow> cs),
        fb \<leftarrow> (case sc_userFeedback c of None \<Rightarrow> [] | Some fb \<Rightarrow> [fb]),
        (\<exists>s. status fb = Some s \<and> s \<noteq> [])
        \<and> (status fb = Some ''Actioned''
            \<or> (\<exists>t. finalAdoptedText fb = Some t \<and> t \<noteq> [])
            \<or> (status fb = Some ''Not Applicable''
                \<and> (\<exists>n. fb_notes fb = Some n \<and> trim n \<noteq> [])))]" for xs
    unfolding learningsOfAnalysis_def learningsOfChange_eq by simp
  have pending: "\<not> feedbackQualifies
               \<lparr>status = Some ''Pending Review'', fb_notes = None, lastUpdated = u,
                finalAdoptedText = None\<rparr>"
       "\<not> feedbackQualifies
               \<lparr>status = Some ''Pending Review'', fb_notes = Some [], lastUpdated = u,
                finalAdoptedText = Some []\<rparr>" for u
    by (simp_all add: feedbackQualifies_def truthy_def)
  show ?thesis
    unfolding full shape using capped [unfolded full shape] feedbackQualifies_iff pending
    by blast
qed

theorem extract_learnings_witness:
  "extractLearningsFromFeedback feedbackStore None =
     [''Feedback for suggestion regarding '' @ [CHR 0x27] @ ''Policy A.pdf'' @ [CHR 0x27]
        @ '' (Gap Review: Gap Review - 1/1/202...): User status set to '' @ [CHR 0x27]
        @ ''Actioned'' @ [CHR 0x27] @ ''.'']"
  using extract_learnings_qualification [of feedbackStore]
  by (simp add: feedbackStore_def sortByTimestampDesc_def resultSourceChanges_def
      demoAnalysis_def demoChallengeResult_def demoChange_def demoFeedback_def
      learningPoint_def analysisTypeLabel_def substring0_def truthy_def trim_def isSpace_def)

text \<open>
  The claim as written fails for an item with an adopted text and no status: the rule of
  the specification accepts it, the code does not.
\<close>

theorem extract_learnings_counterexample:
  "qualifiesPerSpec (demoFeedback None None (Some ''Final wording''))
   \<and> map (map sc_userFeedback) (map suggested_changes
        (List.map_filter challengeAnalysisResult adoptedOnlyStore))
       = [[Some (demoFeedback None None (Some ''Final wording''))]]
   \<and> extractLearningsFromFeedback adoptedOnlyStore None = []"
  by (simp add: qualifiesPerSpec_def demoFeedback_def adoptedOnlyStore_def
      extractLearningsFromFeedback_def sortByTimestampDesc_def resultSourceChanges_def
      demoAnalysis_def demoChallengeResult_def demoChange_def pushLearning_def
      feedbackQualifies_def truthy_def reachedMax_def List.map_filter_def)

section \<open>Properties of the JSON repair\<close>

lemma not_space_simps [simp]:
  "\<not> isSpace (CHR 0x22)" "\<not> isSpace (CHR '','')" "\<not> isSpace (CHR ''{'')" "\<not> isSpace (CHR ''}'')"
  by (simp_all add: isSpace_def)

lemma not_word_simps [simp]:
  "\<not> isWordChar (CHR 0x22)" "\<not> isWordChar (CHR '','')"
  by (simp_all add: isWordChar_def isWordStart_def isLowerAscii_def isUpperAscii_def
      isDigit_def codeUnit_def)

lemma isWordStart_isWordChar: "isWordStart c \<Longrightarrow> isWordChar c"
  by (simp add: isWordChar_def)

text \<open>A match of type 1 or 2 is \<open>}\<close>, spaces and word characters, then the closing character.\<close>

lemma afterStrayWord_decompose:
  assumes "afterStrayWord s = Some r"
  shows "\<exists>mid. s = mid @ r \<and> mid \<noteq> [] \<and> (\<forall>c \<in> set mid. isSpace c \<or> isWordChar c)"
proof -
  obtain c t where ct: "dropWhile isSpace s = c # t"
    using assms by (cases "dropWhile isSpace s") (auto simp: afterStrayWord_def)
  have c: "isWordStart c" and r: "r = dropWhile isSpace (dropWhile isWordChar t)"
    using assms ct by (auto simp: afterStrayWord_def split: if_splits)
  let ?w = "takeWhile isWordChar t"
  let ?t2 = "dropWhile isWordChar t"
  let ?mid = "takeWhile isSpace s @ c # ?w @ takeWhile isSpace ?t2"
  have "s = takeWhile isSpace s @ dropWhile isSpace s" by simp
  also have "\<dots> = takeWhile isSpace s @ c # (?w @ ?t2)" by (simp add: ct)
  also have "\<dots> = takeWhile isSpace s @ c # ?w @ takeWhile isSpace ?t2 @ r"
    by (simp add: r)
  finally have "s = ?mid @ r" by simp
  moreover have "\<forall>x \<in> set ?mid. isSpace x \<or> isWordChar x"
    using c by (auto dest: set_takeWhileD simp: isWordStart_isWordChar)
  ultimately show ?thesis by blast
qed

lemma braceWordThen_decompose:
  assumes "braceWordThen cl s = Some rest"
  shows "\<exists>mid. s = CHR ''}'' # mid @ cl # rest \<and> mid \<noteq> []
           \<and> (\<forall>c \<in> set mid. isSpace c \<or> isWordChar c)"
proof -
  obtain r where s: "s = CHR ''}'' # r"
    using assms by (cases s) (auto simp: braceWordThen_def split: if_splits)
  obtain t where t: "afterStrayWord r = Some (cl # t)" and rest: "rest = t"
    using assms s
    by (auto simp: braceWordThen_def split: option.splits list.splits if_splits)
  from afterStrayWord_decompose [OF t] s rest show ?thesis by auto
qed

lemma commas_append [simp]: "commas (a @ b) = commas a + commas b"
  by (simp add: commas_def)

lemma quotes_append [simp]: "quotes (a @ b) = quotes a + quotes b"
  by (simp add: quotes_def)

lemma commas_Cons [simp]: "commas (c # s) = (if c = CHR '','' then 1 else 0) + commas s"
  by (simp add: commas_def)

lemma quotes_Cons [simp]: "quotes (c # s) = (if c = CHR 0x22 then 1 else 0) + quotes s"
  by (simp add: quotes_def)

lemma commas_Nil [simp]: "commas [] = 0" by (simp add: commas_def)

lemma quotes_Nil [simp]: "quotes [] = 0" by (simp add: quotes_def)

lemma mid_no_commas:
  "\<forall>c \<in> set mid. isSpace c \<or> isWordChar c \<Longrightarrow> commas mid = 0 \<and> quotes mid = 0"
  by (induction mid) auto

lemma replace1_counts:
  "commas (replace1 s) \<ge> commas s \<and> quotes (replace1 s) = quotes s
   \<and> (test1 s \<longrightarrow> commas (replace1 s) > commas s)"
proof (induction s rule: replace1.induct)
  case 1
  then show ?case by simp
next
  case (2 c cs)
  show ?case
  proof (cases "match1 (c # cs)")
    case None
    then show ?thesis using 2(1) [OF None] None by simp
  next
    case (Some rest)
    then obtain mid where d: "c # cs = CHR ''}'' # mid @ CHR ''{'' # rest"
      and mid: "\<forall>c \<in> set mid. isSpace c \<or> isWordChar c"
      using braceWordThen_decompose [of "CHR ''{''" "c # cs" rest] by (auto simp: match1_def)
    have z: "commas mid = 0" "quotes mid = 0" using mid_no_commas [OF mid] by auto
    have "commas (c # cs) = commas rest" "quotes (c # cs) = quotes rest"
      unfolding d using z by simp_all
    then show ?thesis using 2(2) [OF Some] Some by simp
  qed
qed

lemma replace2_counts:
  "commas (replace2 s) = commas s \<and> quotes (replace2 s) = quotes s
   \<and> length (replace2 s) \<le> length s
   \<and> (test2 s \<longrightarrow> length (replace2 s) < length s)"
proof (induction s rule: replace2.induct)
  case 1
  then show ?case by simp
next
  case (2 c cs)
  show ?case
  proof (cases "match2 (c # cs)")
    case None
    then show ?thesis using 2(1) [OF None] None by simp
  next
    case (Some rest)
    then obtain mid where d: "c # cs = CHR ''}'' # mid @ CHR '','' # rest"
      and mid: "\<forall>c \<in> set mid. isSpace c \<or> isWordChar c" and ne: "mid \<noteq> []"
      using braceWordThen_decompose [of "CHR '',''" "c # cs" rest] by (auto simp: match2_def)
    have z: "commas mid = 0" "quotes mid = 0" using mid_no_commas [OF mid] by auto
    have "commas (c # cs) = Suc (commas rest)" "quotes (c # cs) = quotes rest"
      "length (c # cs) > 2 + length rest"
      unfolding d using z ne by (simp_all add: Suc_lessI)
    then show ?thesis using 2(2) [OF Some] Some by simp
  qed
qed

lemma priorityWord_decompose:
  "priorityWord s = Some (w, r) \<Longrightarrow> s = w @ r \<and> w \<in> {''High'', ''Medium'', ''Low''}"
  by (auto simp: priorityWord_def split: option.splits dest!: stripPrefix_append)

lemma matchTail3_decompose:
  assumes "matchTail3 s = Some (g, w, rest)"
  shows "s = g @ CHR 0x22 # w @ CHR 0x22 # rest \<and> w \<in> {''High'', ''Medium'', ''Low''}"
proof -
  from assms obtain r r2 r3 where
    1: "stripPrefix [CHR 0x22, CHR '',''] s = Some r" and
    2: "stripPrefix [CHR 0x22] (dropWhile isSpace r) = Some r2" and
    3: "priorityWord r2 = Some (w, r3)" and
    4: "stripPrefix [CHR 0x22] r3 = Some rest" and
    g: "g = [CHR 0x22, CHR '',''] @ takeWhile isSpace r"
    by (auto simp: matchTail3_def split: option.splits)
  have "r = takeWhile isSpace r @ dropWhile isSpace r" by simp
  also have "dropWhile isSpace r = CHR 0x22 # r2" using stripPrefix_append [OF 2] by simp
  also have "r2 = w @ r3" using priorityWord_decompose [OF 3] by simp
  also have "r3 = CHR 0x22 # rest" using stripPrefix_append [OF 4] by simp
  finally have "r = takeWhile isSpace r @ CHR 0x22 # w @ CHR 0x22 # rest" .
  then have "s = g @ CHR 0x22 # w @ CHR 0x22 # rest"
    using stripPrefix_append [OF 1] g by simp
  then show ?thesis using priorityWord_decompose [OF 3] by simp
qed

lemma lazyDot3_decompose:
  "lazyDot3 s = Some (g, w, rest) \<Longrightarrow>
   s = g @ CHR 0x22 # w @ CHR 0x22 # rest \<and> w \<in> {''High'', ''Medium'', ''Low''}"
proof (induction s arbitrary: g)
  case Nil
  then show ?case by simp
next
  case (Cons c cs)
  show ?case
  proof (cases "matchTail3 (c # cs)")
    case (Some m)
    then have "matchTail3 (c # cs) = Some (g, w, rest)" using Cons.prems by simp
    then show ?thesis by (rule matchTail3_decompose)
  next
    case None
    then obtain g' where g': "lazyDot3 cs = Some (g', w, rest)" "g = c # g'"
      using Cons.prems by (auto split: if_splits)
    then show ?thesis using Cons.IH [OF g'(1)] by simp
  qed
qed

lemma match3_decompose:
  assumes "match3 s = Some (g, w, rest)"
  shows "s = g @ CHR 0x22 # w @ CHR 0x22 # rest \<and> w \<in> {''High'', ''Medium'', ''Low''}"
proof -
  from assms obtain r r2 g' where
    1: "stripPrefix ''\"timeline\":'' s = Some r" and
    2: "stripPrefix [CHR 0x22] (dropWhile isSpace r) = Some r2" and
    3: "lazyDot3 r2 = Some (g', w, rest)" and
    g: "g = ''\"timeline\":'' @ takeWhile isSpace r @ [CHR 0x22] @ g'"
    by (auto simp: match3_def split: option.splits)
  have "r = takeWhile isSpace r @ dropWhile isSpace r" by simp
  also have "dropWhile isSpace r = CHR 0x22 # r2" using stripPrefix_append [OF 2] by simp
  also have "r2 = g' @ CHR 0x22 # w @ CHR 0x22 # rest" using lazyDot3_decompose [OF 3] by simp
  finally have "r = takeWhile isSpace r @ CHR 0x22 # g' @ CHR 0x22 # w @ CHR 0x22 # rest" .
  then have "s = g @ CHR 0x22 # w @ CHR 0x22 # rest"
    using stripPrefix_append [OF 1] g by simp
  then show ?thesis using lazyDot3_decompose [OF 3] by simp
qed

lemma replace3_counts:
  "commas (replace3 s) = commas s \<and> quotes (replace3 s) \<ge> quotes s
   \<and> (test3 s \<longrightarrow> quotes (replace3 s) > quotes s)"
proof (induction s rule: replace3.induct)
  case 1
  then show ?case by simp
next
  case (2 c cs)
  show ?case
  proof (cases "match3 (c # cs)")
    case None
    then show ?thesis using 2(1) [OF None] None by simp
  next
    case (Some m)
    obtain g w rest where m: "m = (g, w, rest)" by (cases m) auto
    have sm: "match3 (c # cs) = Some (g, w, rest)" using Some m by simp
    have d: "c # cs = g @ CHR 0x22 # w @ CHR 0x22 # rest"
      using match3_decompose [OF sm] by simp
    have ih: "commas (replace3 rest) = commas rest \<and> quotes (replace3 rest) \<ge> quotes rest"
      using 2(2) [OF sm refl refl] by simp
    have out: "replace3 (c # cs) = g @ ''\"priority_level\": \"'' @ w @ ''\"'' @ replace3 rest"
      using sm by simp
    have cnt: "commas (c # cs) = commas g + commas w + commas rest"
      "quotes (c # cs) = quotes g + quotes w + quotes rest + 2"
      unfolding d by simp_all
    have "commas (replace3 (c # cs)) = commas g + commas w + commas (replace3 rest)"
      "quotes (replace3 (c # cs)) = quotes g + quotes w + quotes (replace3 rest) + 4"
      unfolding out by simp_all
    then show ?thesis using cnt ih by simp
  qed
qed

lemma json_not_fenced:
  assumes "isJsonText x"
  shows "stripFence x = x"
proof -
  have "stripPrefix ''```'' x = None"
  proof (cases x)
    case Nil
    then show ?thesis by simp
  next
    case (Cons c r)
    show ?thesis
    proof (cases "c = CHR 0x60")
      case False
      then show ?thesis using Cons by simp
    next
      case True
      have n: "2 * length x + 2 = Suc (2 * length x + 1)" by simp
      have "\<not> isJsonText x"
        unfolding isJsonText_def n using Cons True
        by (simp add: isJsonWs_def jsonNumber_def isDigit_def codeUnit_def)
      then show ?thesis using assms by simp
    qed
  qed
  then show ?thesis by (simp add: stripFence_def fenceMatch_def)
qed

lemma repair_fixpoint_iff:
  assumes "stripFence x = x"
  shows "repairJson x = x \<longleftrightarrow> \<not> test1 x \<and> \<not> test2 x \<and> \<not> test3 x"
proof
  assume "\<not> test1 x \<and> \<not> test2 x \<and> \<not> test3 x"
  then show "repairJson x = x"
    using assms
    by (simp add: repairJson_def fixMissingComma_def fixExtraneousWord_def
        fixMissingPriorityKey_def)
next
  assume fixed: "repairJson x = x"
  let ?s1 = "fixMissingComma x"
  let ?s2 = "fixExtraneousWord ?s1"
  let ?s3 = "fixMissingPriorityKey ?s2"
  have s3: "?s3 = x" using fixed assms by (simp add: repairJson_def)
  have c3: "commas ?s3 = commas ?s2"
    using replace3_counts [of ?s2] by (simp add: fixMissingPriorityKey_def)
  have c2: "commas ?s2 = commas ?s1"
    using replace2_counts [of ?s1] by (simp add: fixExtraneousWord_def)
  have n1: "\<not> test1 x"
  proof
    assume "test1 x"
    then have "commas ?s1 > commas x"
      using replace1_counts [of x] by (simp add: fixMissingComma_def)
    then show False using c3 c2 s3 by simp
  qed
  then have s1: "?s1 = x" by (simp add: fixMissingComma_def)
  have q2: "quotes ?s2 = quotes x"
    using replace2_counts [of x] s1 by (simp add: fixExtraneousWord_def)
  have n3': "\<not> test3 ?s2"
  proof
    assume "test3 ?s2"
    then have "quotes ?s3 > quotes ?s2"
      using replace3_counts [of ?s2] by (simp add: fixMissingPriorityKey_def)
    then show False using q2 s3 by simp
  qed
  then have s2: "?s2 = x" using s3 by (simp add: fixMissingPriorityKey_def)
  have n2: "\<not> test2 x"
  proof
    assume "test2 x"
    then have "length ?s2 < length x"
      using replace2_counts [of x] s1 by (simp add: fixExtraneousWord_def)
    then show False using s2 by simp
  qed
  then have "fixExtraneousWord x = x" by (simp add: fixExtraneousWord_def)
  then have "\<not> test3 x" using n3' s1 by simp
  then show "\<not> test1 x \<and> \<not> test2 x \<and> \<not> test3 x" using n1 n2 by simp
qed

text \<open>
  Claim C2, as amended. A well-formed JSON text is never taken for a fenced block, and the
  repair returns it unchanged exactly when none of the three patterns occurs in it,
  string literals included: no \<open>}\<close>, stray word, \<open>{\<close>; no \<open>}\<close>, stray word, comma; no
  timeline field followed by a bare priority word. (The surrounding white space is
  trimmed before these steps, by \<open>repairResponseText\<close>.)
\<close>

theorem repair_identity_on_json:
  assumes "isJsonText x"
  shows "stripFence x = x
         \<and> (repairJson x = x \<longleftrightarrow> \<not> test1 x \<and> \<not> test2 x \<and> \<not> test3 x)"
  using json_not_fenced [OF assms] repair_fixpoint_iff [of x] by simp

theorem repair_identity_witness:
  \<open>isJsonText
     ''{"suggested_changes": [], "action_plan": [{"timeline": "Q1", "priority_level": "High"}]}''
   \<and> repairJson
       ''{"suggested_changes": [], "action_plan": [{"timeline": "Q1", "priority_level": "High"}]}''
     = ''{"suggested_changes": [], "action_plan": [{"timeline": "Q1", "priority_level": "High"}]}''\<close>
proof -
  let ?x = \<open>''{"suggested_changes": [], "action_plan": [{"timeline": "Q1", "priority_level": "High"}]}''\<close>
  have h: "isJsonText ?x" by code_simp
  have t: "\<not> test1 ?x \<and> \<not> test2 ?x \<and> \<not> test3 ?x" by code_simp
  from repair_identity_on_json [OF h] t h show ?thesis by simp
qed

text \<open>
  The claim as written fails for a well-formed text whose string literal holds a pattern:
  the rewrite of type 1 reaches into the literal.
\<close>

theorem repair_identity_counterexample:
  \<open>isJsonText ''{"a":"}b{"}''
   \<and> repairJson ''{"a":"}b{"}'' = ''{"a":"}, {"}''
   \<and> repairResponseText ''{"a":"}b{"}'' = ''{"a":"}, {"}''
   \<and> repairJson ''{"a":"}b{"}'' \<noteq> ''{"a":"}b{"}''\<close>
  by code_simp

lemma dropWhile_spaces_then:
  "\<forall>c \<in> set ws. isSpace c \<Longrightarrow> \<not> isSpace d \<Longrightarrow>
   dropWhile isSpace (ws @ d # r) = d # r \<and> takeWhile isSpace (ws @ d # r) = ws"
  by (induction ws) auto

lemma priorityWord_at:
  \<open>w \<in> {''High'', ''Medium'', ''Low''} \<Longrightarrow> priorityWord (w @ r) = Some (w, r)\<close>
  by (auto simp: priorityWord_def)

lemma matchTail3_at:
  assumes "\<forall>c \<in> set ws2. isSpace c" "w \<in> {''High'', ''Medium'', ''Low''}"
  shows \<open>matchTail3 (''",'' @ ws2 @ ''"'' @ w @ ''"'' @ post) = Some (''",'' @ ws2, w, post)\<close>
  using dropWhile_spaces_then [OF assms(1), of "CHR 0x22" "w @ CHR 0x22 # post"]
    priorityWord_at [OF assms(2), of "CHR 0x22 # post"]
  by (simp add: matchTail3_def)

lemma matchTail3_not_quote: "c \<noteq> CHR 0x22 \<Longrightarrow> matchTail3 (c # cs) = None"
  by (simp add: matchTail3_def)

lemma lazyDot3_value:
  assumes "\<forall>c \<in> set val. c \<noteq> CHR 0x22 \<and> \<not> isLineTerminator c"
    and t: "matchTail3 (CHR 0x22 # T) = Some m"
  shows "lazyDot3 (val @ CHR 0x22 # T) = Some (case m of (g, w, rest) \<Rightarrow> (val @ g, w, rest))"
  using assms(1)
proof (induction val)
  case Nil
  then show ?case using t by (cases m) simp
next
  case (Cons c val)
  then show ?case by (cases m) (simp add: matchTail3_not_quote)
qed

lemma stripPrefix_same: "stripPrefix p (p @ r) = Some r"
  by (induction p) auto

lemma match3_at_field:
  assumes "\<forall>c \<in> set ws1. isSpace c" "\<forall>c \<in> set ws2. isSpace c"
    "\<forall>c \<in> set val. c \<noteq> CHR 0x22 \<and> \<not> isLineTerminator c"
    "w \<in> {''High'', ''Medium'', ''Low''}"
  shows "match3 (timelineField ws1 val ws2 @ CHR 0x22 # w @ CHR 0x22 # post)
           = Some (timelineField ws1 val ws2, w, post)"
proof -
  let ?T = "CHR '','' # ws2 @ CHR 0x22 # w @ CHR 0x22 # post"
  let ?L = "''\"timeline\":''"
  have whole: "timelineField ws1 val ws2 @ CHR 0x22 # w @ CHR 0x22 # post
                 = ?L @ (ws1 @ CHR 0x22 # val @ CHR 0x22 # ?T)"
    by (simp add: timelineField_def)
  have tail: "matchTail3 (CHR 0x22 # ?T) = Some ([CHR 0x22, CHR '',''] @ ws2, w, post)"
    using matchTail3_at [OF assms(2) assms(4), of post] by simp
  have dot: "lazyDot3 (val @ CHR 0x22 # ?T) = Some (val @ [CHR 0x22, CHR '',''] @ ws2, w, post)"
    using lazyDot3_value [OF assms(3) tail] by simp
  have sp: "dropWhile isSpace (ws1 @ CHR 0x22 # val @ CHR 0x22 # ?T) = CHR 0x22 # val @ CHR 0x22 # ?T"
       "takeWhile isSpace (ws1 @ CHR 0x22 # val @ CHR 0x22 # ?T) = ws1"
    using dropWhile_spaces_then [OF assms(1), of "CHR 0x22" "val @ CHR 0x22 # ?T"]
    by (simp_all add: isSpace_def)
  show ?thesis
    unfolding whole match3_def stripPrefix_same
    by (simp only: sp option.case) (simp add: dot timelineField_def)
qed

lemma lazyDot3_skip_chars:
  assumes "\<forall>c \<in> set k. c \<noteq> CHR 0x22" "lazyDot3 (k @ R) = Some x"
  shows "\<exists>g w r. lazyDot3 R = Some (g, w, r) \<and> x = (k @ g, w, r)"
  using assms
proof (induction k arbitrary: x)
  case Nil
  then show ?case by (cases x) auto
next
  case (Cons c k)
  have nt: "matchTail3 (c # k @ R) = None"
    using Cons.prems(1) by (simp add: matchTail3_not_quote)
  from Cons.prems(2) nt obtain y where y: "lazyDot3 (k @ R) = Some y"
    and x: "x = (case y of (g, w, rest) \<Rightarrow> (c # g, w, rest))"
    by (auto split: if_splits)
  from Cons.IH [OF _ y] Cons.prems(1) obtain g w r where
    "lazyDot3 R = Some (g, w, r)" "y = (k @ g, w, r)" by auto
  then show ?case using x by simp
qed

lemma lazyDot3_skip_quote:
  assumes "matchTail3 (CHR 0x22 # R) = None" "lazyDot3 (CHR 0x22 # R) = Some x"
  shows "\<exists>g w r. lazyDot3 R = Some (g, w, r) \<and> x = (CHR 0x22 # g, w, r)"
  using assms by (auto simp: isLineTerminator_def)

lemma space_not_quote: "isSpace c \<Longrightarrow> c \<noteq> CHR 0x22"
  by (auto simp: isSpace_def)

lemma matchTail3_open_quote:
  assumes "\<forall>c \<in> set val. c \<noteq> CHR 0x22"
  shows "matchTail3 (CHR 0x22 # val @ CHR 0x22 # CHR '','' # T) = None"
proof (cases val)
  case Nil
  then show ?thesis by (simp add: matchTail3_def)
next
  case (Cons v vs)
  show ?thesis
  proof (cases "v = CHR '',''")
    case False
    then show ?thesis using Cons by (simp add: matchTail3_def)
  next
    case True
    have strip: "stripPrefix [CHR 0x22, CHR '',''] (CHR 0x22 # val @ CHR 0x22 # CHR '','' # T)
                   = Some (vs @ CHR 0x22 # CHR '','' # T)"
      using Cons True by simp
    show ?thesis
    proof (cases "\<forall>c \<in> set vs. isSpace c")
      case True
      then have "dropWhile isSpace (vs @ CHR 0x22 # CHR '','' # T) = CHR 0x22 # CHR '','' # T"
        using dropWhile_spaces_then [of vs "CHR 0x22" "CHR '','' # T"] by (simp add: isSpace_def)
      then show ?thesis
        unfolding matchTail3_def strip by (simp add: priorityWord_def)
    next
      case False
      then obtain d ds where d: "dropWhile isSpace vs = d # ds"
        by (cases "dropWhile isSpace vs") (auto simp: dropWhile_eq_Nil_conv)
      then have "d \<in> set vs" by (metis list.set_intros(1) set_dropWhileD)
      then have dq: "d \<noteq> CHR 0x22" using assms Cons by auto
      from False obtain e where "e \<in> set vs" "\<not> isSpace e" by auto
      then have "dropWhile isSpace (vs @ CHR 0x22 # CHR '','' # T)
                   = dropWhile isSpace vs @ CHR 0x22 # CHR '','' # T"
        by (rule dropWhile_append1)
      then have "dropWhile isSpace (vs @ CHR 0x22 # CHR '','' # T) = d # ds @ CHR 0x22 # CHR '','' # T"
        using d by simp
      then show ?thesis
        unfolding matchTail3_def strip using dq by simp
    qed
  qed
qed

text \<open>A lazy scan that starts at the field, or just after its first quote, ends at its end.\<close>

lemma lazyDot3_inside_field:
  assumes "\<forall>c \<in> set ws1. isSpace c" "\<forall>c \<in> set ws2. isSpace c"
    "\<forall>c \<in> set val. c \<noteq> CHR 0x22 \<and> \<not> isLineTerminator c"
    "w \<in> {''High'', ''Medium'', ''Low''}"
    and scan: "lazyDot3 (''timeline\":'' @ ws1 @ CHR 0x22 # val @ CHR 0x22 # CHR '','' # ws2
                          @ CHR 0x22 # w @ CHR 0x22 # post) = Some (g, W, rest)"
  shows "CHR 0x22 # g = timelineField ws1 val ws2 \<and> W = w \<and> rest = post"
proof -
  let ?T = "CHR '','' # ws2 @ CHR 0x22 # w @ CHR 0x22 # post"
  let ?R3 = "CHR 0x22 # val @ CHR 0x22 # ?T"
  let ?R2 = "ws1 @ ?R3"
  let ?R1 = "CHR 0x22 # CHR '':'' # ?R2"
  have s0: "lazyDot3 (''timeline'' @ ?R1) = Some (g, W, rest)" using scan by simp
  from lazyDot3_skip_chars [OF _ s0] obtain g1 where
    1: "lazyDot3 ?R1 = Some (g1, W, rest)" and g1: "g = ''timeline'' @ g1" by auto
  have "matchTail3 ?R1 = None" by (simp add: matchTail3_def)
  from lazyDot3_skip_quote [OF this 1] obtain g2 where
    2: "lazyDot3 ([CHR '':''] @ ?R2) = Some (g2, W, rest)" and g2: "g1 = CHR 0x22 # g2" by auto
  from lazyDot3_skip_chars [OF _ 2] obtain g3 where
    3: "lazyDot3 (ws1 @ ?R3) = Some (g3, W, rest)" and g3: "g2 = [CHR '':''] @ g3" by auto
  from lazyDot3_skip_chars [OF _ 3] assms(1) obtain g4 where
    4: "lazyDot3 ?R3 = Some (g4, W, rest)" and g4: "g3 = ws1 @ g4"
    by (auto dest: space_not_quote)
  have "matchTail3 ?R3 = None"
    using matchTail3_open_quote [of val] assms(3) by simp
  from lazyDot3_skip_quote [OF this 4] obtain g5 where
    5: "lazyDot3 (val @ CHR 0x22 # ?T) = Some (g5, W, rest)" and g5: "g4 = CHR 0x22 # g5" by auto
  have tail: "matchTail3 (CHR 0x22 # ?T) = Some ([CHR 0x22, CHR '',''] @ ws2, w, post)"
    using matchTail3_at [OF assms(2) assms(4), of post] by simp
  have "lazyDot3 (val @ CHR 0x22 # ?T) = Some (val @ [CHR 0x22, CHR '',''] @ ws2, w, post)"
    using lazyDot3_value [OF assms(3) tail] by simp
  then have "g5 = val @ [CHR 0x22, CHR '',''] @ ws2" "W = w" "rest = post" using 5 by auto
  then show ?thesis using g1 g2 g3 g4 g5 by (simp add: timelineField_def)
qed

lemma notAfterPriorityWord_suffix:
  "notAfterPriorityWord x \<Longrightarrow> suffix y x \<Longrightarrow> notAfterPriorityWord y"
  unfolding notAfterPriorityWord_def by (meson suffix_order.trans)

lemma stripPrefix_app_cases:
  assumes "stripPrefix lit (x @ Z) = Some r"
  shows "(\<exists>x1. x = lit @ x1 \<and> r = x1 @ Z) \<or> (\<exists>l2. lit = x @ l2 \<and> l2 \<noteq> [] \<and> Z = l2 @ r)"
proof -
  have "x @ Z = lit @ r" using stripPrefix_append [OF assms] .
  then obtain us where "(x = lit @ us \<and> us @ Z = r) \<or> (x @ us = lit \<and> Z = us @ r)"
    by (auto simp: append_eq_append_conv2)
  then show ?thesis by (cases "us = []") auto
qed

text \<open>
  The end of the pattern, tried at a position before the field, cannot end inside the field:
  it ends before it.
\<close>

lemma tail_within:
  assumes m: "matchTail3 (x @ Z) = Some (tg, W, r4)"
    and Z: "Z = CHR 0x22 # CHR ''t'' # Z'"
    and H: "notAfterPriorityWord x"
  shows "\<exists>x5. r4 = x5 @ Z \<and> suffix x5 x \<and> length x5 < length x"
proof -
  from m obtain r r2 r3 where
    1: "stripPrefix [CHR 0x22, CHR '',''] (x @ Z) = Some r" and
    2: "stripPrefix [CHR 0x22] (dropWhile isSpace r) = Some r2" and
    3: "priorityWord r2 = Some (W, r3)" and
    4: "stripPrefix [CHR 0x22] r3 = Some r4"
    by (auto simp: matchTail3_def split: option.splits)
  from stripPrefix_app_cases [OF 1] obtain x1 where x1: "x = [CHR 0x22, CHR '',''] @ x1" "r = x1 @ Z"
    using Z by (auto simp: Cons_eq_append_conv)
  have W: "W \<in> {''High'', ''Medium'', ''Low''}" and r2: "r2 = W @ r3"
    using priorityWord_decompose [OF 3] by auto
  show ?thesis
  proof (cases "\<forall>c \<in> set x1. isSpace c")
    case True
    then have "dropWhile isSpace r = Z"
      unfolding x1(2) Z using dropWhile_spaces_then [of x1 "CHR 0x22" "CHR ''t'' # Z'"]
      by (simp add: isSpace_def)
    then have "r2 = CHR ''t'' # Z'" using 2 Z by simp
    then show ?thesis using 3 by (simp add: priorityWord_def)
  next
    case False
    then obtain e where "e \<in> set x1" "\<not> isSpace e" by auto
    then have dw: "dropWhile isSpace r = dropWhile isSpace x1 @ Z"
      unfolding x1(2) by (rule dropWhile_append1)
    have ne: "dropWhile isSpace x1 \<noteq> []" using False by (simp add: dropWhile_eq_Nil_conv)
    from stripPrefix_app_cases [of "[CHR 0x22]" "dropWhile isSpace x1" Z r2] 2 dw ne
    obtain x3 where x3: "dropWhile isSpace x1 = CHR 0x22 # x3" "r2 = x3 @ Z"
      by (auto simp: Cons_eq_append_conv)
    have "x3 @ Z = W @ r3" using r2 x3 by simp
    then obtain us where us: "(x3 = W @ us \<and> us @ Z = r3) \<or> (x3 @ us = W \<and> Z = us @ r3)"
      by (auto simp: append_eq_append_conv2)
    have "\<not> (x3 @ us = W \<and> Z = us @ r3 \<and> us \<noteq> [])"
    proof
      assume a: "x3 @ us = W \<and> Z = us @ r3 \<and> us \<noteq> []"
      then have "hd us = CHR 0x22" using Z by (cases us) auto
      then have "CHR 0x22 \<in> set W" using a by (cases us) auto
      then show False using W by auto
    qed
    then obtain x4 where x4: "x3 = W @ x4" "r3 = x4 @ Z" using us by auto
    show ?thesis
    proof (cases x4)
      case Nil
      have "x1 = takeWhile isSpace x1 @ dropWhile isSpace x1" by simp
      then have "x = ([CHR 0x22, CHR '',''] @ takeWhile isSpace x1) @ CHR 0x22 # W"
        using x1(1) x3(1) x4(1) Nil by simp
      then have "suffix (CHR 0x22 # W) x" unfolding suffix_def by blast
      then show ?thesis using H W by (auto simp: notAfterPriorityWord_def)
    next
      case (Cons q x5)
      then have q: "q = CHR 0x22" "r4 = x5 @ Z" using 4 x4(2) by (auto split: if_splits)
      have "x1 = takeWhile isSpace x1 @ dropWhile isSpace x1" by simp
      then have "x = ([CHR 0x22, CHR '',''] @ takeWhile isSpace x1 @ CHR 0x22 # W @ [q]) @ x5"
        using x1(1) x3(1) x4(1) Cons by simp
      then have "suffix x5 x \<and> length x5 < length x"
        unfolding suffix_def by (metis append_Cons length_append length_greater_0_conv
            less_add_same_cancel2 list.distinct(1) append_is_Nil_conv)
      then show ?thesis using q by blast
    qed
  qed
qed

lemma lazy_over_prefix:
  assumes Z: "Z = CHR 0x22 # CHR ''t'' # Z'"
    and H: "notAfterPriorityWord x"
    and scan: "lazyDot3 (x @ Z) = Some (g, W, rest)"
  shows "(\<exists>x5. rest = x5 @ Z \<and> suffix x5 x \<and> length x5 < length x)
         \<or> (\<exists>g'. lazyDot3 Z = Some (g', W, rest) \<and> g = x @ g')"
  using H scan
proof (induction x arbitrary: g)
  case Nil
  then show ?case by simp
next
  case (Cons c x)
  show ?case
  proof (cases "matchTail3 ((c # x) @ Z)")
    case (Some m)
    then have "matchTail3 ((c # x) @ Z) = Some (g, W, rest)" using Cons.prems(2) by simp
    from tail_within [OF this Z Cons.prems(1)] show ?thesis by blast
  next
    case None
    then obtain g0 where g0: "lazyDot3 (x @ Z) = Some (g0, W, rest)" "g = c # g0"
      using Cons.prems(2) by (auto split: if_splits)
    have Hx: "notAfterPriorityWord x"
      using notAfterPriorityWord_suffix [OF Cons.prems(1), of x] by (simp add: suffix_ConsI)
    from Cons.IH [OF Hx g0(1)] show ?thesis
    proof
      assume "\<exists>x5. rest = x5 @ Z \<and> suffix x5 x \<and> length x5 < length x"
      then show ?thesis by (auto intro: suffix_ConsI)
    next
      assume "\<exists>g'. lazyDot3 Z = Some (g', W, rest) \<and> g0 = x @ g'"
      then show ?thesis using g0(2) by auto
    qed
  qed
qed

lemma match_from_prefix:
  assumes f: "\<forall>c \<in> set ws1. isSpace c" "\<forall>c \<in> set ws2. isSpace c"
    "\<forall>c \<in> set val. c \<noteq> CHR 0x22 \<and> \<not> isLineTerminator c"
    "w \<in> {''High'', ''Medium'', ''Low''}"
    and Z: "Z = timelineField ws1 val ws2 @ CHR 0x22 # w @ CHR 0x22 # post"
    and ne: "pre \<noteq> []"
    and H: "notAfterPriorityWord pre"
    and m: "match3 (pre @ Z) = Some (g, W, rest)"
  shows "(\<exists>x5. rest = x5 @ Z \<and> notAfterPriorityWord x5 \<and> length x5 < length pre)
         \<or> (g = pre @ timelineField ws1 val ws2 \<and> W = w \<and> rest = post)"
proof -
  let ?L = "''\"timeline\":''"
  let ?Z1 = "''timeline\":'' @ ws1 @ CHR 0x22 # val @ CHR 0x22 # CHR '','' # ws2
               @ CHR 0x22 # w @ CHR 0x22 # post"
  have Zq: "Z = CHR 0x22 # ?Z1" by (simp add: Z timelineField_def)
  then obtain Z' where Zt: "Z = CHR 0x22 # CHR ''t'' # Z'" by simp
  from m obtain r r2 g' where
    1: "stripPrefix ?L (pre @ Z) = Some r" and
    2: "stripPrefix [CHR 0x22] (dropWhile isSpace r) = Some r2" and
    3: "lazyDot3 r2 = Some (g', W, rest)" and
    g: "g = ?L @ takeWhile isSpace r @ [CHR 0x22] @ g'"
    by (auto simp: match3_def split: option.splits)
  from stripPrefix_app_cases [OF 1] ne obtain x1 where x1: "pre = ?L @ x1" "r = x1 @ Z"
    using Zt by (auto simp: Cons_eq_append_conv)
  show ?thesis
  proof (cases "\<forall>c \<in> set x1. isSpace c")
    case True
    then have sp: "dropWhile isSpace r = Z" "takeWhile isSpace r = x1"
      unfolding x1(2) Zt using dropWhile_spaces_then [of x1 "CHR 0x22" "CHR ''t'' # Z'"]
      by (simp_all add: isSpace_def)
    then have "r2 = ?Z1" using 2 Zq by simp
    from lazyDot3_inside_field [OF f 3 [unfolded this]]
    have "CHR 0x22 # g' = timelineField ws1 val ws2" "W = w" "rest = post" by auto
    then show ?thesis using g sp(2) x1(1) by simp
  next
    case False
    then obtain e where e: "e \<in> set x1" "\<not> isSpace e" by auto
    then have dw: "dropWhile isSpace r = dropWhile isSpace x1 @ Z"
      unfolding x1(2) by (rule dropWhile_append1)
    have tw: "takeWhile isSpace r = takeWhile isSpace x1"
      unfolding x1(2) using e by (rule takeWhile_append1)
    have nex: "dropWhile isSpace x1 \<noteq> []" using False by (simp add: dropWhile_eq_Nil_conv)
    from stripPrefix_app_cases [of "[CHR 0x22]" "dropWhile isSpace x1" Z r2] 2 dw nex
    obtain x3 where x3: "dropWhile isSpace x1 = CHR 0x22 # x3" "r2 = x3 @ Z"
      by (auto simp: Cons_eq_append_conv)
    have "x1 = takeWhile isSpace x1 @ dropWhile isSpace x1" by simp
    then have pre: "pre = (?L @ takeWhile isSpace x1 @ [CHR 0x22]) @ x3"
      using x1(1) x3(1) by simp
    then have suf: "suffix x3 pre" unfolding suffix_def by blast
    have len: "length x3 < length pre" using pre by (metis append_Cons length_append
          length_greater_0_conv less_add_same_cancel2 list.distinct(1) append_is_Nil_conv)
    have H3: "notAfterPriorityWord x3" using notAfterPriorityWord_suffix [OF H suf] .
    from lazy_over_prefix [OF Zt H3 3 [unfolded x3(2)]] show ?thesis
    proof
      assume "\<exists>x5. rest = x5 @ Z \<and> suffix x5 x3 \<and> length x5 < length x3"
      then obtain x5 where x5: "rest = x5 @ Z" "suffix x5 x3" "length x5 < length x3" by auto
      have "notAfterPriorityWord x5" using notAfterPriorityWord_suffix [OF H3 x5(2)] .
      then show ?thesis using x5 len by auto
    next
      assume "\<exists>g''. lazyDot3 Z = Some (g'', W, rest) \<and> g' = x3 @ g''"
      then obtain g'' where g'': "lazyDot3 Z = Some (g'', W, rest)" "g' = x3 @ g''" by auto
      have mt: "matchTail3 Z = None" unfolding Zt by (simp add: matchTail3_def)
      from lazyDot3_skip_quote [OF mt [unfolded Zq] g''(1) [unfolded Zq]] obtain g3 where
        g3: "lazyDot3 ?Z1 = Some (g3, W, rest)" "g'' = CHR 0x22 # g3" by auto
      from lazyDot3_inside_field [OF f g3(1)]
      have "CHR 0x22 # g3 = timelineField ws1 val ws2" "W = w" "rest = post" by auto
      then show ?thesis using g tw g''(2) g3(2) pre by simp
    qed
  qed
qed

lemma replace3_inserts:
  assumes f: "\<forall>c \<in> set ws1. isSpace c" "\<forall>c \<in> set ws2. isSpace c"
    "\<forall>c \<in> set val. c \<noteq> CHR 0x22 \<and> \<not> isLineTerminator c"
    "w \<in> {''High'', ''Medium'', ''Low''}"
    and H: "notAfterPriorityWord pre"
  shows "\<exists>a. replace3 (pre @ timelineField ws1 val ws2 @ CHR 0x22 # w @ CHR 0x22 # post)
               = a @ timelineField ws1 val ws2 @ ''\"priority_level\": \"'' @ w @ ''\"''
                   @ replace3 post"
  using H
proof (induction "length pre" arbitrary: pre rule: less_induct)
  case less
  let ?F = "timelineField ws1 val ws2"
  let ?Z = "?F @ CHR 0x22 # w @ CHR 0x22 # post"
  let ?out = "?F @ ''\"priority_level\": \"'' @ w @ ''\"'' @ replace3 post"
  have at: "match3 ?Z = Some (?F, w, post)" using match3_at_field [OF f] .
  have Zc: "?Z = CHR 0x22 # tl ?Z" by (simp add: timelineField_def)
  show ?case
  proof (cases pre)
    case Nil
    have "replace3 ?Z = ?out"
      by (subst Zc, subst replace3.simps(2), fold Zc) (simp add: at)
    then show ?thesis using Nil by (intro exI [of _ "[]"]) simp
  next
    case (Cons p pre')
    show ?thesis
    proof (cases "match3 (pre @ ?Z)")
      case None
      have Hp: "notAfterPriorityWord pre'"
        using notAfterPriorityWord_suffix [OF less.prems, of pre'] Cons by (simp add: suffix_ConsI)
      from less.hyps [of pre', OF _ Hp] Cons obtain a where
        "replace3 (pre' @ ?Z) = a @ ?out" by auto
      then have "replace3 (pre @ ?Z) = (p # a) @ ?out" using None Cons by simp
      then show ?thesis by blast
    next
      case (Some mm)
      obtain g W rest where mm: "mm = (g, W, rest)" by (cases mm) auto
      have sm: "match3 (pre @ ?Z) = Some (g, W, rest)" using Some mm by simp
      have rp: "replace3 (pre @ ?Z) = g @ ''\"priority_level\": \"'' @ W @ ''\"'' @ replace3 rest"
        using sm Cons by simp
      have ne: "pre \<noteq> []" using Cons by simp
      from match_from_prefix [OF f refl ne less.prems sm] show ?thesis
      proof
        assume "\<exists>x5. rest = x5 @ ?Z \<and> notAfterPriorityWord x5 \<and> length x5 < length pre"
        then obtain x5 where x5: "rest = x5 @ ?Z" "notAfterPriorityWord x5"
          "length x5 < length pre" by auto
        from less.hyps [OF x5(3) x5(2)] obtain a where "replace3 (x5 @ ?Z) = a @ ?out" by auto
        then have "replace3 (pre @ ?Z)
                     = (g @ ''\"priority_level\": \"'' @ W @ ''\"'' @ a) @ ?out"
          using rp x5(1) by simp
        then show ?thesis by blast
      next
        assume "g = pre @ ?F \<and> W = w \<and> rest = post"
        then have "replace3 (pre @ ?Z) = pre @ ?out" using rp by simp
        then show ?thesis by blast
      qed
    qed
  qed
qed

lemma replace3_no_match: "\<not> test3 s \<Longrightarrow> replace3 s = s"
proof (induction s rule: replace3.induct)
  case 1
  then show ?case by simp
next
  case (2 c cs)
  have n: "match3 (c # cs) = None" using 2(3) by (cases "match3 (c # cs)") auto
  have t: "\<not> test3 cs" using 2(3) by simp
  show ?case using 2(1) [OF n t] n by simp
qed

lemma fixMissingPriorityKey_replace3: "fixMissingPriorityKey s = replace3 s"
  by (simp add: fixMissingPriorityKey_def replace3_no_match)

text \<open>
  Claim C3, as amended. Take any text in which a timeline field (the key, optional spaces,
  a quoted value without double quote or line break, a comma, optional spaces) is followed
  by a bare "High", "Medium" or "Low", and in which the field does not directly follow a
  quote and one of these words. The repair step keeps the field and writes
  \<open>"priority_level": \<close> in front of the bare word, and goes on repairing the text after it.
  In particular the whole repair turns \<open>"timeline": "Q1 2025", "High"\<close> into
  \<open>"timeline": "Q1 2025", "priority_level": "High"\<close>.
\<close>

theorem missing_priority_key_inserted:
  \<open>(\<forall>ws1 ws2 val w pre post.
       (\<forall>c \<in> set ws1. isSpace c) \<and> (\<forall>c \<in> set ws2. isSpace c)
       \<and> (\<forall>c \<in> set val. c \<noteq> CHR 0x22 \<and> \<not> isLineTerminator c)
       \<and> w \<in> {''High'', ''Medium'', ''Low''}
       \<and> notAfterPriorityWord pre
       \<longrightarrow> (\<exists>a. fixMissingPriorityKey
                    (pre @ ''"timeline":'' @ ws1 @ ''"'' @ val @ ''",'' @ ws2
                       @ ''"'' @ w @ ''"'' @ post)
                  = a @ ''"timeline":'' @ ws1 @ ''"'' @ val @ ''",'' @ ws2
                      @ ''"priority_level": "'' @ w @ ''"'' @ fixMissingPriorityKey post))
   \<and> repairJson ''"timeline": "Q1 2025", "High"''
       = ''"timeline": "Q1 2025", "priority_level": "High"''\<close>
proof (intro conjI allI impI)
  fix ws1 ws2 val w pre post
  assume a: "(\<forall>c \<in> set ws1. isSpace c) \<and> (\<forall>c \<in> set ws2. isSpace c)
       \<and> (\<forall>c \<in> set val. c \<noteq> CHR 0x22 \<and> \<not> isLineTerminator c)
       \<and> w \<in> {''High'', ''Medium'', ''Low''}
       \<and> notAfterPriorityWord pre"
  then have f: "\<forall>c \<in> set ws1. isSpace c" "\<forall>c \<in> set ws2. isSpace c"
      "\<forall>c \<in> set val. c \<noteq> CHR 0x22 \<and> \<not> isLineTerminator c"
      "w \<in> {''High'', ''Medium'', ''Low''}" "notAfterPriorityWord pre"
    by blast+
  from replace3_inserts [OF f, of post]
  show \<open>\<exists>a. fixMissingPriorityKey
                    (pre @ ''"timeline":'' @ ws1 @ ''"'' @ val @ ''",'' @ ws2
                       @ ''"'' @ w @ ''"'' @ post)
                  = a @ ''"timeline":'' @ ws1 @ ''"'' @ val @ ''",'' @ ws2
                      @ ''"priority_level": "'' @ w @ ''"'' @ fixMissingPriorityKey post\<close>
    by (simp add: fixMissingPriorityKey_replace3 timelineField_def)
next
  show \<open>repairJson ''"timeline": "Q1 2025", "High"''
       = ''"timeline": "Q1 2025", "priority_level": "High"''\<close>
    by code_simp
qed

theorem missing_priority_key_witness:
  \<open>\<exists>a. fixMissingPriorityKey
          (''{"task": "Review", '' @ ''"timeline":'' @ '' '' @ ''"'' @ ''Q1 2025'' @ ''",'' @ '' ''
             @ ''"'' @ ''Medium'' @ ''"'' @ ''}'')
        = a @ ''"timeline":'' @ '' '' @ ''"'' @ ''Q1 2025'' @ ''",'' @ '' ''
            @ ''"priority_level": "'' @ ''Medium'' @ ''"'' @ fixMissingPriorityKey ''}''\<close>
proof -
  have h: \<open>(\<forall>c \<in> set '' ''. isSpace c) \<and> (\<forall>c \<in> set '' ''. isSpace c)
       \<and> (\<forall>c \<in> set ''Q1 2025''. c \<noteq> CHR 0x22 \<and> \<not> isLineTerminator c)
       \<and> ''Medium'' \<in> {''High'', ''Medium'', ''Low''}
       \<and> notAfterPriorityWord ''{"task": "Review", ''\<close>
    by (simp add: isSpace_def isLineTerminator_def notAfterPriorityWord_def suffix_def
        Cons_eq_append_conv)
  from missing_priority_key_inserted [THEN conjunct1, rule_format, OF h]
  show ?thesis .
qed

text \<open>
  The claim as written names the key \<open>priorityLevel\<close>; the code writes \<open>priority_level\<close>,
  the name of the field in \<open>ActionPlanItem\<close> and in the prompt. The two other equations
  show why the statement needs its side conditions: a field that directly follows a
  repaired word, and a value with a line break, are left as they are.
\<close>

theorem missing_priority_key_counterexample:
  \<open>repairJson ''"timeline": "Q1 2025", "High"''
     = ''"timeline": "Q1 2025", "priority_level": "High"''
   \<and> \<not> jsIncludes (repairJson ''"timeline": "Q1 2025", "High"'') ''"priorityLevel": "High"''
   \<and> repairJson ''"timeline": "a", "High"timeline": "Q1", "High"''
       = ''"timeline": "a", "priority_level": "High"timeline": "Q1", "High"''
   \<and> repairJson (''"timeline": "Q1'' @ [CHR 0x0A] @ ''2025", "High"'')
       = ''"timeline": "Q1'' @ [CHR 0x0A] @ ''2025", "High"''\<close>
  by code_simp

section \<open>Properties of the learning selection\<close>

lemma scanCompanyDocs_iff:
  "scanCompanyDocs frag l added docs
     \<longleftrightarrow> list_ex (\<lambda>d. jsIncludes frag (toLowerCase (cd_name d))) docs
          \<and> frag @ coreLearningContent l \<notin> set added"
  by (induction docs) auto

lemma scanLearnings_eq:
  "scanLearnings mx docs ls acc added =
     acc @ take (mx - length acc)
             (firstOfEachKey learningKey added (filter (learningRelevant docs) ls))"
proof (induction ls arbitrary: acc added)
  case Nil
  then show ?case by simp
next
  case (Cons l ls)
  show ?case
  proof (cases "mx \<le> length acc")
    case True
    then show ?thesis by simp
  next
    case False
    then have pos: "mx - length acc = Suc (mx - length (acc @ [l]))" by simp
    show ?thesis
    proof (cases "docSectionMatch l")
      case None
      then have "\<not> learningRelevant docs l"
        by (simp add: learningRelevant_def docSectionFragment_def)
      then show ?thesis using None False Cons.IH by simp
    next
      case (Some g)
      have frag: "docSectionFragment l = toLowerCase g"
        by (simp add: docSectionFragment_def Some)
      have rel: "learningRelevant docs l \<longleftrightarrow>
                   g \<noteq> [] \<and> list_ex (\<lambda>d. jsIncludes (toLowerCase g) (toLowerCase (cd_name d))) docs"
        by (simp add: learningRelevant_def frag toLowerCase_def)
      have key: "learningKey l = toLowerCase g @ coreLearningContent l"
        by (simp add: learningKey_def frag)
      show ?thesis
      proof (cases "g \<noteq> [] \<and> scanCompanyDocs (toLowerCase g) l added docs")
        case True
        then have r: "learningRelevant docs l" and k: "learningKey l \<notin> set added"
          by (auto simp: rel key scanCompanyDocs_iff)
        have "scanLearnings mx docs (l # ls) acc added
                = scanLearnings mx docs ls (acc @ [l]) (added @ [learningKey l])"
          using True False Some by (simp add: key)
        also have "\<dots> = (acc @ [l]) @ take (mx - length (acc @ [l]))
                     (firstOfEachKey learningKey (added @ [learningKey l])
                        (filter (learningRelevant docs) ls))"
          by (rule Cons.IH)
        also have "\<dots> = acc @ take (mx - length acc)
                     (firstOfEachKey learningKey added (filter (learningRelevant docs) (l # ls)))"
          unfolding pos using r k by simp
        finally show ?thesis .
      next
        case no: False
        then have skip: "\<not> learningRelevant docs l \<or> learningKey l \<in> set added"
          by (auto simp: rel key scanCompanyDocs_iff)
        have "scanLearnings mx docs (l # ls) acc added = scanLearnings mx docs ls acc added"
          using no False Some by auto
        also have "\<dots> = acc @ take (mx - length acc)
                     (firstOfEachKey learningKey added (filter (learningRelevant docs) ls))"
          by (rule Cons.IH)
        also have "\<dots> = acc @ take (mx - length acc)
                     (firstOfEachKey learningKey added (filter (learningRelevant docs) (l # ls)))"
          using skip by auto
        finally show ?thesis .
      qed
    qed
  qed
qed

lemma firstOfEachKey_subseq: "subseq (firstOfEachKey key seen xs) xs"
  by (induction xs arbitrary: seen) auto

lemma firstOfEachKey_keys:
  "distinct (map key (firstOfEachKey key seen xs))
   \<and> key ` set (firstOfEachKey key seen xs) \<inter> set seen = {}
   \<and> key ` set xs \<subseteq> set seen \<union> key ` set (firstOfEachKey key seen xs)"
proof (induction xs arbitrary: seen)
  case Nil
  then show ?case by simp
next
  case (Cons x xs)
  show ?case
  proof (cases "key x \<in> set seen")
    case True
    then show ?thesis using Cons.IH [of seen] by auto
  next
    case False
    then show ?thesis using Cons.IH [of "seen @ [key x]"] by auto
  qed
qed

lemma firstOfEachKey_distinct_id:
  "distinct (map key xs) \<Longrightarrow> key ` set xs \<inter> set seen = {} \<Longrightarrow> firstOfEachKey key seen xs = xs"
  by (induction xs arbitrary: seen) auto


lemma select_eq:
  "selectContextualLearningsForChallengePrompt all docs mx
     = take mx (firstOfEachKey learningKey [] (filter (learningRelevant docs) all))"
proof (cases "docs = [] \<or> all = []")
  case True
  then show ?thesis
    by (auto simp: selectContextualLearningsForChallengePrompt_def learningRelevant_def)
next
  case False
  then show ?thesis
    by (simp add: selectContextualLearningsForChallengePrompt_def scanLearnings_eq)
qed

lemma learningRelevant_iff:
  "learningRelevant docs l =
     (\<exists>g. docSectionMatch l = Some g \<and> g \<noteq> []
          \<and> (\<exists>d \<in> set docs. jsIncludes (toLowerCase g) (toLowerCase (cd_name d))))"
  by (cases "docSectionMatch l")
     (auto simp: learningRelevant_def docSectionFragment_def toLowerCase_def list_ex_iff)



lemma firstOfEachKey_set: "set (firstOfEachKey key seen xs) \<subseteq> set xs"
  by (induction xs arbitrary: seen) auto

lemma subseq_take_self: "subseq (take n xs) xs"
  using subseq_rev_drop_many [of "take n xs" "take n xs" "drop n xs"] by simp


text \<open>
  Claim C4, as amended. For every list of learnings, every list of target company documents
  and every maximum, the selection is the first \<open>mx\<close> learnings, in scan order and one per
  key, among the relevant ones: it is a subsequence of the input, has at most \<open>mx\<close>
  elements, holds relevant learnings only, and no two of them share the fragment and core
  content; when the relevant learnings have distinct keys and number at most \<open>mx\<close>, it is
  exactly the relevant learnings. A learning is relevant if and only if the pattern
  \<open>regarding '(...)'\<close> matches with a fragment that is not empty and that, lower-cased,
  contains the lower-cased name of some target document. A learning regarding
  'Policy A.pdf' is returned for the target named Policy A.pdf and not for the target named
  Policy B.pdf.
\<close>

theorem select_learnings_for_prompt:
  "(\<forall>all docs mx.
      selectContextualLearningsForChallengePrompt all docs mx
        = take mx (firstOfEachKey learningKey [] (filter (learningRelevant docs) all))
      \<and> subseq (selectContextualLearningsForChallengePrompt all docs mx) all
      \<and> length (selectContextualLearningsForChallengePrompt all docs mx) \<le> mx
      \<and> (\<forall>l \<in> set (selectContextualLearningsForChallengePrompt all docs mx).
            learningRelevant docs l)
      \<and> distinct (map learningKey (selectContextualLearningsForChallengePrompt all docs mx))
      \<and> (distinct (map learningKey (filter (learningRelevant docs) all))
           \<and> length (filter (learningRelevant docs) all) \<le> mx
           \<longrightarrow> selectContextualLearningsForChallengePrompt all docs mx
                 = filter (learningRelevant docs) all))
   \<and> (\<forall>docs l. learningRelevant docs l =
          (\<exists>g. docSectionMatch l = Some g \<and> g \<noteq> []
               \<and> (\<exists>d \<in> set docs. jsIncludes (toLowerCase g) (toLowerCase (cd_name d)))))
   \<and> selectContextualLearningsForChallengePrompt [demoLearning ''Policy A.pdf'']
         [demoDoc ''doc-a'' ''Policy A.pdf''] 7 = [demoLearning ''Policy A.pdf'']
   \<and> selectContextualLearningsForChallengePrompt [demoLearning ''Policy A.pdf'']
         [demoDoc ''doc-b'' ''Policy B.pdf''] 7 = []"
proof (intro conjI allI)
  fix all :: "string list" and docs :: "CompanyDocument list" and mx :: nat
  let ?R = "selectContextualLearningsForChallengePrompt all docs mx"
  let ?F = "firstOfEachKey learningKey [] (filter (learningRelevant docs) all)"
  show eq: "?R = take mx ?F" by (rule select_eq)
  have sub: "subseq ?F (filter (learningRelevant docs) all)" by (rule firstOfEachKey_subseq)
  have t: "subseq (take mx ?F) ?F" by (rule subseq_take_self)
  have f: "subseq (filter (learningRelevant docs) all) all" by simp
  have "subseq (take mx ?F) (filter (learningRelevant docs) all)"
    using t sub by (rule subseq_order.trans)
  then show "subseq ?R all"
    unfolding eq using f by (rule subseq_order.trans)
  show "length ?R \<le> mx" unfolding eq by simp
  have "set ?F \<subseteq> set (filter (learningRelevant docs) all)"
    by (rule firstOfEachKey_set)
  then show "\<forall>l \<in> set ?R. learningRelevant docs l"
    unfolding eq by (auto dest: in_set_takeD)
  have d: "distinct (map learningKey ?F)"
    using firstOfEachKey_keys [of learningKey "[]" "filter (learningRelevant docs) all"] by simp
  show "distinct (map learningKey ?R)"
    unfolding eq take_map [symmetric] using d by (rule distinct_take)
  show "distinct (map learningKey (filter (learningRelevant docs) all))
           \<and> length (filter (learningRelevant docs) all) \<le> mx
           \<longrightarrow> ?R = filter (learningRelevant docs) all"
    unfolding eq by (simp add: firstOfEachKey_distinct_id)
next
  fix docs l
  show "learningRelevant docs l =
          (\<exists>g. docSectionMatch l = Some g \<and> g \<noteq> []
               \<and> (\<exists>d \<in> set docs. jsIncludes (toLowerCase g) (toLowerCase (cd_name d))))"
    by (rule learningRelevant_iff)
next
  show "selectContextualLearningsForChallengePrompt [demoLearning ''Policy A.pdf'']
         [demoDoc ''doc-a'' ''Policy A.pdf''] 7 = [demoLearning ''Policy A.pdf'']"
    by code_simp
next
  show "selectContextualLearningsForChallengePrompt [demoLearning ''Policy A.pdf'']
         [demoDoc ''doc-b'' ''Policy B.pdf''] 7 = []"
    by code_simp
qed

theorem select_learnings_witness:
  "distinct (map learningKey (filter (learningRelevant [demoDoc ''doc-a'' ''Policy A.pdf''])
       [demoLearning ''Policy A.pdf'', demoLearning ''Policy B.pdf'']))
   \<and> length (filter (learningRelevant [demoDoc ''doc-a'' ''Policy A.pdf''])
       [demoLearning ''Policy A.pdf'', demoLearning ''Policy B.pdf'']) \<le> 7
   \<and> demoLearning ''Policy A.pdf''
        \<in> set (selectContextualLearningsForChallengePrompt
             [demoLearning ''Policy A.pdf'', demoLearning ''Policy B.pdf'']
             [demoDoc ''doc-a'' ''Policy A.pdf''] 7)
   \<and> learningRelevant [demoDoc ''doc-a'' ''Policy A.pdf''] (demoLearning ''Policy A.pdf'')
   \<and> selectContextualLearningsForChallengePrompt
        [demoLearning ''Policy A.pdf'', demoLearning ''Policy B.pdf'']
        [demoDoc ''doc-a'' ''Policy A.pdf''] 7
      = filter (learningRelevant [demoDoc ''doc-a'' ''Policy A.pdf''])
          [demoLearning ''Policy A.pdf'', demoLearning ''Policy B.pdf'']"
proof -
  have rel: "filter (learningRelevant [demoDoc ''doc-a'' ''Policy A.pdf''])
       [demoLearning ''Policy A.pdf'', demoLearning ''Policy B.pdf'']
      = [demoLearning ''Policy A.pdf'']"
    by code_simp
  have sel: "selectContextualLearningsForChallengePrompt
        [demoLearning ''Policy A.pdf'', demoLearning ''Policy B.pdf'']
        [demoDoc ''doc-a'' ''Policy A.pdf''] 7 = [demoLearning ''Policy A.pdf'']"
    by code_simp
  have r: "learningRelevant [demoDoc ''doc-a'' ''Policy A.pdf''] (demoLearning ''Policy A.pdf'')"
    by code_simp
  from select_learnings_for_prompt
  have "distinct (map learningKey (filter (learningRelevant [demoDoc ''doc-a'' ''Policy A.pdf''])
            [demoLearning ''Policy A.pdf'', demoLearning ''Policy B.pdf'']))
           \<and> length (filter (learningRelevant [demoDoc ''doc-a'' ''Policy A.pdf''])
            [demoLearning ''Policy A.pdf'', demoLearning ''Policy B.pdf'']) \<le> 7
           \<longrightarrow> selectContextualLearningsForChallengePrompt
                [demoLearning ''Policy A.pdf'', demoLearning ''Policy B.pdf'']
                [demoDoc ''doc-a'' ''Policy A.pdf''] 7
               = filter (learningRelevant [demoDoc ''doc-a'' ''Policy A.pdf''])
                   [demoLearning ''Policy A.pdf'', demoLearning ''Policy B.pdf'']"
    by (elim conjE allE)
  then show ?thesis unfolding rel sel using r by simp
qed

theorem select_learnings_counterexample:
  "docSectionMatch (demoLearning ''Policy'') = Some ''Policy''
   \<and> jsIncludes (toLowerCase ''Policy A.pdf'') (toLowerCase ''Policy'')
   \<and> selectContextualLearningsForChallengePrompt [demoLearning ''Policy'']
        [demoDoc ''doc-a'' ''Policy A.pdf''] 7 = []"
  by code_simp

section \<open>Properties of the Gap Review workflow\<close>

subsection \<open>Validation\<close>

text \<open>
  Claim C5, as amended. When the list of target company document ids or the list of target
  regulatory ids is empty and the AI client is initialised, the run ends at once with the
  validation message as error and the fetch state Idle, the rest of the state as it was,
  and no call to any collaborator. When the AI client is not initialised, the run ends
  with the error "AI client not initialized." and the fetch state Error, whatever the
  lists are. In both cases, with an empty list, there is no generator call and no retriever
  call, the saved analyses are unchanged and an error is shown. The variant that delegates
  to a backend has no client check: with an empty list it always ends with the validation
  message, the fetch state Idle and no backend call.
\<close>

theorem gap_review_validation:
  "(aiClient env \<and> (companyDocIds = [] \<or> targetRegulatoryIds = []) \<longrightarrow>
      generateGapReview env targetRegulatoryIds companyDocIds st
        = (st\<lparr>errorMessage := Some validationMessage, fetchStatus := IDLE\<rparr>, []))
   \<and> (\<not> aiClient env \<longrightarrow>
      generateGapReview env targetRegulatoryIds companyDocIds st
        = (st\<lparr>errorMessage := Some ''AI client not initialized.'', fetchStatus := ERROR\<rparr>, []))
   \<and> (companyDocIds = [] \<or> targetRegulatoryIds = [] \<longrightarrow>
      filter isGeneratorCall (snd (generateGapReview env targetRegulatoryIds companyDocIds st)) = []
      \<and> filter isRetrieverCall (snd (generateGapReview env targetRegulatoryIds companyDocIds st)) = []
      \<and> savedAnalyses (fst (generateGapReview env targetRegulatoryIds companyDocIds st))
          = savedAnalyses st
      \<and> errorMessage (fst (generateGapReview env targetRegulatoryIds companyDocIds st)) \<noteq> None)
   \<and> (companyDocIds = [] \<or> targetRegulatoryIds = [] \<longrightarrow>
      generateGapReviewViaBackend backend targetRegulatoryIds companyDocIds st
        = (st\<lparr>errorMessage := Some validationMessage, fetchStatus := IDLE\<rparr>, 0))"
  by (simp add: generateGapReview_def generateGapReviewViaBackend_def)

theorem gap_review_validation_witness:
  "aiClient (demoEnv True [] [])
   \<and> fetchStatus (fst (generateGapReview (demoEnv True [] []) [''au-1''] [] (demoState demoStore None))) = IDLE
   \<and> errorMessage (fst (generateGapReview (demoEnv True [] []) [''au-1''] [] (demoState demoStore None)))
        = Some validationMessage
   \<and> snd (generateGapReview (demoEnv True [] []) [''au-1''] [] (demoState demoStore None)) = []
   \<and> savedAnalyses (fst (generateGapReview (demoEnv True [] []) [''au-1''] [] (demoState demoStore None)))
        = demoStore
   \<and> fetchStatus (fst (generateGapReviewViaBackend (\<lambda>r c s. Inl ''offline'') [''au-1''] []
        (demoState demoStore None))) = IDLE"
  using gap_review_validation [of "demoEnv True [] []" "[]" "[''au-1'']" "demoState demoStore None"
      "\<lambda>r c s. Inl ''offline''"]
  by (simp add: demoEnv_def demoState_def)

theorem gap_review_validation_counterexample:
  "fetchStatus (fst (generateGapReview (demoEnv False [] []) [''au-1''] [] (demoState demoStore None)))
     = ERROR
   \<and> errorMessage (fst (generateGapReview (demoEnv False [] []) [''au-1''] [] (demoState demoStore None)))
       = Some ''AI client not initialized.''
   \<and> errorMessage (fst (generateGapReview (demoEnv False [] []) [''au-1''] [] (demoState demoStore None)))
       \<noteq> Some validationMessage"
  by (simp add: generateGapReview_def demoEnv_def demoState_def validationMessage_def)

subsection \<open>Chunk filtering\<close>

lemma austracChunksUsed_targeted:
  "austracChunksUsed (filter (\<lambda>d. au_id d \<in> set ids) content) chunks
     = filter (\<lambda>c. regulatoryChunkTargeted ids c \<and> documentId c \<in> au_id ` set content) chunks"
  unfolding austracChunksUsed_def regulatoryChunkTargeted_def
  by (rule filter_cong) (force simp: list_ex_iff image_iff)+

lemma companyChunksUsed_targeted:
  "companyChunksUsed (filter (\<lambda>d. cd_id d \<in> set cids) corpus) chunks
     = filter (\<lambda>c. companyChunkTargeted cids c \<and> documentId c \<in> cd_id ` set corpus) chunks"
  unfolding companyChunksUsed_def companyChunkTargeted_def
  by (rule filter_cong) (force simp: list_ex_iff image_iff)+

lemma austracChunksUsed_drop:
  "austracChunksUsed (filter (\<lambda>d. au_id d \<in> set ids) content)
       (filter (\<lambda>c. regulatoryChunkTargeted ids c \<or> companyChunkTargeted cids c) chunks)
     = austracChunksUsed (filter (\<lambda>d. au_id d \<in> set ids) content) chunks"
  unfolding austracChunksUsed_targeted filter_filter
  by (rule filter_cong) auto

lemma companyChunksUsed_drop:
  "companyChunksUsed (filter (\<lambda>d. cd_id d \<in> set cids) corpus)
       (filter (\<lambda>c. regulatoryChunkTargeted ids c \<or> companyChunkTargeted cids c) chunks)
     = companyChunksUsed (filter (\<lambda>d. cd_id d \<in> set cids) corpus) chunks"
  unfolding companyChunksUsed_targeted filter_filter
  by (rule filter_cong) auto

lemma userPromptOf_drop:
  "userPromptOf (filter (\<lambda>d. au_id d \<in> set ids) content) (filter (\<lambda>d. cd_id d \<in> set cids) corpus)
       sums (filter (\<lambda>c. regulatoryChunkTargeted ids c \<or> companyChunkTargeted cids c) chunks)
     = userPromptOf (filter (\<lambda>d. au_id d \<in> set ids) content)
         (filter (\<lambda>d. cd_id d \<in> set cids) corpus) sums chunks"
  unfolding userPromptOf_def userPromptContext_def austracContextFromChunks_def
    companyContextFromChunks_def austracChunksUsed_drop companyChunksUsed_drop
  by (rule refl)

lemma summarizeUpdate_drop:
  "summarizeUpdate (dropUntargeted ids cids env) = summarizeUpdate env"
  by (rule ext) (simp add: summarizeUpdate_def dropUntargeted_def)

lemma ingest_drop:
  "ingestAllUnprocessedDocuments (dropUntargeted ids cids env) force st
     = ingestAllUnprocessedDocuments env force st"
proof -
  have p: "processAndIngestDoc (dropUntargeted ids cids env) = processAndIngestDoc env"
    by (intro ext) (simp add: processAndIngestDoc_def dropUntargeted_def)
  show ?thesis unfolding ingestAllUnprocessedDocuments_def p by (rule refl)
qed

lemma persist_drop:
  "persistGapReview (dropUntargeted ids cids env) regs docs sums ls sp up js st
     = persistGapReview env regs docs sums ls sp up js st"
proof -
  have c: "postProcessChange (dropUntargeted ids cids env) = postProcessChange env"
    by (rule ext) (simp add: postProcessChange_def dropUntargeted_def)
  have i: "postProcessItem (dropUntargeted ids cids env) = postProcessItem env"
    by (rule ext) (simp add: postProcessItem_def dropUntargeted_def)
  have f: "jsonParse (dropUntargeted ids cids env) = jsonParse env"
      "freshAnalysisId (dropUntargeted ids cids env) = freshAnalysisId env"
      "localeNow (dropUntargeted ids cids env) = localeNow env"
      "timestampNow (dropUntargeted ids cids env) = timestampNow env"
    by (simp_all add: dropUntargeted_def)
  show ?thesis unfolding persistGapReview_def c i f by (rule refl)
qed

lemma generateGapReview_drop:
  "generateGapReview (dropUntargeted ids cids env) ids cids st = generateGapReview env ids cids st"
proof -
  have f: "aiClient (dropUntargeted ids cids env) = aiClient env"
      "generateContent (dropUntargeted ids cids env) = generateContent env"
      "RAG_TOP_K_CHUNKS_ANALYSIS (dropUntargeted ids cids env) = RAG_TOP_K_CHUNKS_ANALYSIS env"
    by (simp_all add: dropUntargeted_def)
  have r: "retrieveContextFromVertexAI (dropUntargeted ids cids env) q k =
       (case retrieveContextFromVertexAI env q k of
                Inl message \<Rightarrow> Inl message
              | Inr chunks \<Rightarrow>
                  Inr (filter (\<lambda>c. regulatoryChunkTargeted ids c
                                     \<or> companyChunkTargeted cids c) chunks))" for q k
    by (simp add: dropUntargeted_def)
  show ?thesis
    unfolding generateGapReview_def f r summarizeUpdate_drop ingest_drop persist_drop Let_def
    by (simp add: userPromptOf_drop split: sum.splits prod.splits)
qed

text \<open>
  Claim C6. The chunks that make the regulatory section of the user prompt are exactly the
  retrieved chunks of the regulatory type whose document id is among the target regulatory
  ids and is the id of a stored regulatory input; those of the company section are exactly
  the retrieved chunks of the company type whose document id is among the target company
  document ids and is the id of a stored company document. Each section, and with them the
  user prompt, is the same when every chunk that is not targeted is removed from what the
  retriever returned; and a whole run ends in the same state, with the same calls, when
  the retriever is replaced by one that returns the targeted chunks only.
\<close>

theorem chunk_filtering_discipline:
  "austracChunksUsed (filter (\<lambda>d. au_id d \<in> set targetRegulatoryIds) content) chunks
     = filter (\<lambda>c. regulatoryChunkTargeted targetRegulatoryIds c
                    \<and> documentId c \<in> au_id ` set content) chunks
   \<and> companyChunksUsed (filter (\<lambda>d. cd_id d \<in> set companyDocIds) corpus) chunks
     = filter (\<lambda>c. companyChunkTargeted companyDocIds c
                    \<and> documentId c \<in> cd_id ` set corpus) chunks
   \<and> austracContextFromChunks (filter (\<lambda>d. au_id d \<in> set targetRegulatoryIds) content)
        (filter (regulatoryChunkTargeted targetRegulatoryIds) chunks)
     = austracContextFromChunks (filter (\<lambda>d. au_id d \<in> set targetRegulatoryIds) content) chunks
   \<and> companyContextFromChunks (filter (\<lambda>d. cd_id d \<in> set companyDocIds) corpus)
        (filter (companyChunkTargeted companyDocIds) chunks)
     = companyContextFromChunks (filter (\<lambda>d. cd_id d \<in> set companyDocIds) corpus) chunks
   \<and> userPromptOf (filter (\<lambda>d. au_id d \<in> set targetRegulatoryIds) content)
        (filter (\<lambda>d. cd_id d \<in> set companyDocIds) corpus) summaries
        (filter (\<lambda>c. regulatoryChunkTargeted targetRegulatoryIds c
                       \<or> companyChunkTargeted companyDocIds c) chunks)
     = userPromptOf (filter (\<lambda>d. au_id d \<in> set targetRegulatoryIds) content)
         (filter (\<lambda>d. cd_id d \<in> set companyDocIds) corpus) summaries chunks
   \<and> generateGapReview (dropUntargeted targetRegulatoryIds companyDocIds env)
        targetRegulatoryIds companyDocIds st
     = generateGapReview env targetRegulatoryIds companyDocIds st"
proof (intro conjI)
  show "austracContextFromChunks (filter (\<lambda>d. au_id d \<in> set targetRegulatoryIds) content)
        (filter (regulatoryChunkTargeted targetRegulatoryIds) chunks)
     = austracContextFromChunks (filter (\<lambda>d. au_id d \<in> set targetRegulatoryIds) content) chunks"
    unfolding austracContextFromChunks_def austracChunksUsed_targeted filter_filter
    by (simp cong: conj_cong)
  show "companyContextFromChunks (filter (\<lambda>d. cd_id d \<in> set companyDocIds) corpus)
        (filter (companyChunkTargeted companyDocIds) chunks)
     = companyContextFromChunks (filter (\<lambda>d. cd_id d \<in> set companyDocIds) corpus) chunks"
    unfolding companyContextFromChunks_def companyChunksUsed_targeted filter_filter
    by (simp cong: conj_cong)
qed (rule austracChunksUsed_targeted companyChunksUsed_targeted userPromptOf_drop
       generateGapReview_drop)+

theorem chunk_filtering_witness:
  "austracChunksUsed (filter (\<lambda>d. au_id d \<in> set [''au-1'']) demoContent) demoChunks
     = [demoChunk ''au-1'' ''Rule 4'' AustracChunk ''Targeted rule text'']
   \<and> companyChunksUsed (filter (\<lambda>d. cd_id d \<in> set [''doc-a'']) demoCorpus) demoChunks
     = [demoChunk ''doc-a'' ''Policy A.pdf'' CompanyChunk ''Targeted policy text'']
   \<and> userPromptOf (filter (\<lambda>d. au_id d \<in> set [''au-1'']) demoContent)
        (filter (\<lambda>d. cd_id d \<in> set [''doc-a'']) demoCorpus) []
        [demoChunk ''au-1'' ''Rule 4'' AustracChunk ''Targeted rule text'',
         demoChunk ''doc-a'' ''Policy A.pdf'' CompanyChunk ''Targeted policy text'']
     = userPromptOf (filter (\<lambda>d. au_id d \<in> set [''au-1'']) demoContent)
         (filter (\<lambda>d. cd_id d \<in> set [''doc-a'']) demoCorpus) [] demoChunks
   \<and> jsIncludes (userPromptContext (filter (\<lambda>d. au_id d \<in> set [''au-1'']) demoContent)
         (filter (\<lambda>d. cd_id d \<in> set [''doc-a'']) demoCorpus) [] demoChunks)
        ''Targeted rule text''
   \<and> \<not> jsIncludes (userPromptContext (filter (\<lambda>d. au_id d \<in> set [''au-1'']) demoContent)
         (filter (\<lambda>d. cd_id d \<in> set [''doc-a'']) demoCorpus) [] demoChunks) ''Untargeted''
   \<and> \<not> jsIncludes (userPromptContext (filter (\<lambda>d. au_id d \<in> set [''au-1'']) demoContent)
         (filter (\<lambda>d. cd_id d \<in> set [''doc-a'']) demoCorpus) [] demoChunks) ''Mistyped''"
proof -
  have f: "filter (\<lambda>c. regulatoryChunkTargeted [''au-1''] c \<or> companyChunkTargeted [''doc-a''] c)
             demoChunks
           = [demoChunk ''au-1'' ''Rule 4'' AustracChunk ''Targeted rule text'',
              demoChunk ''doc-a'' ''Policy A.pdf'' CompanyChunk ''Targeted policy text'']"
    by code_simp
  have a: "filter (\<lambda>c. regulatoryChunkTargeted [''au-1''] c
                    \<and> documentId c \<in> au_id ` set demoContent) demoChunks
           = [demoChunk ''au-1'' ''Rule 4'' AustracChunk ''Targeted rule text'']"
    by code_simp
  have c: "filter (\<lambda>c. companyChunkTargeted [''doc-a''] c
                    \<and> documentId c \<in> cd_id ` set demoCorpus) demoChunks
           = [demoChunk ''doc-a'' ''Policy A.pdf'' CompanyChunk ''Targeted policy text'']"
    by code_simp
  have n: "jsIncludes (userPromptContext (filter (\<lambda>d. au_id d \<in> set [''au-1'']) demoContent)
         (filter (\<lambda>d. cd_id d \<in> set [''doc-a'']) demoCorpus) [] demoChunks)
        ''Targeted rule text''
   \<and> \<not> jsIncludes (userPromptContext (filter (\<lambda>d. au_id d \<in> set [''au-1'']) demoContent)
         (filter (\<lambda>d. cd_id d \<in> set [''doc-a'']) demoCorpus) [] demoChunks) ''Untargeted''
   \<and> \<not> jsIncludes (userPromptContext (filter (\<lambda>d. au_id d \<in> set [''au-1'']) demoContent)
         (filter (\<lambda>d. cd_id d \<in> set [''doc-a'']) demoCorpus) [] demoChunks) ''Mistyped''"
    by code_simp
  show ?thesis
    using chunk_filtering_discipline [of "[''au-1'']" demoContent demoChunks "[''doc-a'']"
        demoCorpus "[]" "demoEnv True [] []" "demoState demoStore None"] n
    unfolding f a c by (elim conjE) (intro conjI, assumption+)
qed

subsection \<open>Grouping of the suggested changes\<close>

lemma pushGroup_keys:
  "map fst (pushGroup k c g) = (if k \<in> fst ` set g then map fst g else map fst g @ [k])"
proof (induction g)
  case Nil
  show ?case by simp
next
  case (Cons p g)
  obtain k' grp where p: "p = (k', grp)" by (cases p)
  show ?case
  proof (cases "k' = k")
    case True
    then show ?thesis by (simp add: p)
  next
    case False
    then show ?thesis using Cons.IH by (simp add: p)
  qed
qed

lemma pushGroup_distinct: "distinct (map fst g) \<Longrightarrow> distinct (map fst (pushGroup k c g))"
  by (simp add: pushGroup_keys)

lemma pushGroup_map_of:
  "map_of (pushGroup k c g) =
     (map_of g)(k \<mapsto> (case map_of g k of None \<Rightarrow> [c] | Some grp \<Rightarrow> grp @ [c]))"
  by (induction g) (auto simp: fun_eq_iff)

lemma pushGroup_sizes:
  "sum_list (map (\<lambda>(k, grp). length grp) (pushGroup k c g))
     = Suc (sum_list (map (\<lambda>(k, grp). length grp) g))"
  by (induction g) auto

lemma pushGroup_mset:
  "mset (concat (map snd (pushGroup k c g))) = add_mset c (mset (concat (map snd g)))"
  by (induction g) auto

lemma groupInto_distinct:
  "groupInto grouped changes = Inr g \<Longrightarrow> distinct (map fst grouped) \<Longrightarrow> distinct (map fst g)"
  by (induction changes arbitrary: grouped) (auto simp: pushGroup_distinct split: if_splits)

lemma groupInto_sizes:
  "groupInto grouped changes = Inr g \<Longrightarrow>
     sum_list (map (\<lambda>(k, grp). length grp) g)
       = sum_list (map (\<lambda>(k, grp). length grp) grouped) + length changes"
  by (induction changes arbitrary: grouped) (auto simp: pushGroup_sizes split: if_splits)

lemma groupInto_mset:
  "groupInto grouped changes = Inr g \<Longrightarrow>
     mset (concat (map snd g)) = mset (concat (map snd grouped)) + mset changes"
  by (induction changes arbitrary: grouped) (auto simp: pushGroup_mset split: if_splits)

lemma groupInto_map_of:
  "groupInto grouped changes = Inr g \<Longrightarrow>
     map_of g k =
       (if filter (\<lambda>c. docNameOf c = k) changes = [] then map_of grouped k
        else Some ((case map_of grouped k of None \<Rightarrow> [] | Some grp \<Rightarrow> grp)
                     @ filter (\<lambda>c. docNameOf c = k) changes))"
proof (induction changes arbitrary: grouped)
  case Nil
  then show ?case by simp
next
  case (Cons c cs)
  from Cons.prems have ok: "docNameOf c \<notin> set objectPrototypeKeys"
    and rest: "groupInto (pushGroup (docNameOf c) c grouped) cs = Inr g"
    by (auto split: if_splits)
  show ?case
    unfolding Cons.IH [OF rest] pushGroup_map_of
    by (auto split: option.splits)
qed

lemma groupInto_succeeds:
  "(\<exists>g. groupInto grouped changes = Inr g)
     \<longleftrightarrow> (\<forall>c \<in> set changes. docNameOf c \<notin> set objectPrototypeKeys)"
  by (induction changes arbitrary: grouped) auto

lemma groupSuggestions_groups:
  assumes "groupSuggestions changes = Inr g"
  shows "(k, grp) \<in> set g \<longleftrightarrow> grp = filter (\<lambda>c. docNameOf c = k) changes \<and> grp \<noteq> []"
proof -
  have g: "groupInto [] changes = Inr g" using assms by (simp add: groupSuggestions_def)
  have d: "distinct (map fst g)" using groupInto_distinct [OF g] by simp
  have m: "map_of g k = (if filter (\<lambda>c. docNameOf c = k) changes = [] then None
                         else Some (filter (\<lambda>c. docNameOf c = k) changes))"
    using groupInto_map_of [OF g, of k] by simp
  have "(k, grp) \<in> set g \<longleftrightarrow> map_of g k = Some grp"
    using d by simp
  then show ?thesis unfolding m by auto
qed

lemma ingest_savedAnalyses:
  "savedAnalyses (fst (ingestAllUnprocessedDocuments env force st)) = savedAnalyses st"
  by (simp add: ingestAllUnprocessedDocuments_def Let_def)

lemma persist_success:
  assumes "fetchStatus (persistGapReview env regs docs sums ls sp up js st) = SUCCESS"
  shows "\<exists>r g new.
           challengeResult (persistGapReview env regs docs sums ls sp up js st) = Some r
           \<and> groupedSuggestions r = Some g
           \<and> groupSuggestions (suggested_changes r) = Inr g
           \<and> savedAnalyses (persistGapReview env regs docs sums ls sp up js st)
               = new # savedAnalyses st
           \<and> challengeAnalysisResult new = Some r"
proof (cases "jsonParse env js")
  case None
  then show ?thesis using assms by (simp add: persistGapReview_def parseFailed_def)
next
  case (Some parsed)
  show ?thesis
  proof (cases "groupSuggestions (map (postProcessChange env) (withIndex (raw_suggested_changes parsed)))")
    case (Inl thrown)
    then show ?thesis using assms Some by (simp add: persistGapReview_def parseFailed_def Let_def)
  next
    case (Inr grouped)
    then show ?thesis using Some by (simp add: persistGapReview_def Let_def)
  qed
qed

lemma generateGapReview_success:
  assumes "fetchStatus (fst (generateGapReview env ids cids st)) = SUCCESS"
  shows "\<exists>r g new.
           challengeResult (fst (generateGapReview env ids cids st)) = Some r
           \<and> groupedSuggestions r = Some g
           \<and> groupSuggestions (suggested_changes r) = Inr g
           \<and> savedAnalyses (fst (generateGapReview env ids cids st)) = new # savedAnalyses st
           \<and> challengeAnalysisResult new = Some r"
proof -
  have s: "savedAnalyses x1 = savedAnalyses x"
    if "ingestAllUnprocessedDocuments env False x = (x1, x2)" for x x1 x2
    using ingest_savedAnalyses [of env False x] that by simp
  show ?thesis
    using assms unfolding generateGapReview_def Let_def
    by (auto simp: runFailed_def ingest_savedAnalyses
             split: if_splits sum.splits prod.splits dest!: persist_success s)
qed


lemma demo_groups_eval: "groupSuggestions demoChanges = Inr demoGroups" by code_simp
lemma demo_run_succeeds: "fetchStatus (fst (generateGapReview
        (demoEnv True [demoRawChange (Some ''Policy A.pdf''), demoRawChange None] [])
        [''au-1''] [''doc-a''] demoGapState)) = SUCCESS"
proof -
  have g: "groupSuggestions (map (postProcessChange
              (demoEnv True [demoRawChange (Some ''Policy A.pdf''), demoRawChange None] []))
             (withIndex (Some [demoRawChange (Some ''Policy A.pdf''), demoRawChange None])))
           = Inr [(''Policy A.pdf'', [demoChange ''sc-new'' (Some ''Policy A.pdf'') None
                       \<lparr>document_section := ''Section 2''\<rparr>]),
                  (''General'', [demoChange ''sc-new'' None None
                       \<lparr>document_section := ''Section 2''\<rparr>])]"
    by code_simp
  have f: "aiClient (demoEnv True cs []) = True"
      "retrieveContextFromVertexAI (demoEnv True cs []) q k = Inr []"
      "generateContent (demoEnv True cs []) pr b = Inr ''{}''"
      "jsonParse (demoEnv True cs []) js
         = Some \<lparr>raw_suggested_changes = Some cs, raw_action_plan = None\<rparr>"
    for cs q k pr b js
    by (simp_all add: demoEnv_def)
  have p: "fetchStatus (persistGapReview
              (demoEnv True [demoRawChange (Some ''Policy A.pdf''), demoRawChange None] [])
              regs docs sums ls sp up js x) = SUCCESS" for regs docs sums ls sp up js x
    unfolding persistGapReview_def Let_def by (simp add: f g)
  show ?thesis
    unfolding generateGapReview_def Let_def by (simp add: f p split: prod.splits)
qed

text \<open>
  Claim C7. When the grouping of a list of suggested changes completes, the groups have
  distinct names; a pair of a name and a group is among them exactly when the group is the
  list of the changes of that name (source_document_name, or "General" when it is absent
  or empty), in their order, and is not empty; every change is in the group of exactly one
  name; the sizes of the groups add up to the length of the list, and the groups together
  hold the same changes as the list, each as many times. The grouping completes exactly
  when no name is one that every object inherits (such as "constructor"), for which it
  throws instead. A run that ends with the fetch state Success displays and saves, as the
  newest analysis, a result whose groups are the grouping of its own suggested changes.
\<close>

theorem grouped_suggestions_partition:
  "(groupSuggestions changes = Inr g \<longrightarrow>
      distinct (map fst g)
      \<and> (\<forall>k grp. (k, grp) \<in> set g
             \<longleftrightarrow> grp = filter (\<lambda>c. docNameOf c = k) changes \<and> grp \<noteq> [])
      \<and> (\<forall>c \<in> set changes. \<exists>!k. \<exists>grp. (k, grp) \<in> set g \<and> c \<in> set grp)
      \<and> sum_list (map (\<lambda>(k, grp). length grp) g) = length changes
      \<and> mset (concat (map snd g)) = mset changes)
   \<and> ((\<exists>grouped. groupSuggestions changes = Inr grouped)
        \<longleftrightarrow> (\<forall>c \<in> set changes. docNameOf c \<notin> set objectPrototypeKeys))
   \<and> (fetchStatus (fst (generateGapReview env targetRegulatoryIds companyDocIds st)) = SUCCESS
        \<longrightarrow> (\<exists>r grouped new.
               challengeResult (fst (generateGapReview env targetRegulatoryIds companyDocIds st))
                 = Some r
               \<and> groupedSuggestions r = Some grouped
               \<and> groupSuggestions (suggested_changes r) = Inr grouped
               \<and> savedAnalyses (fst (generateGapReview env targetRegulatoryIds companyDocIds st))
                   = new # savedAnalyses st
               \<and> challengeAnalysisResult new = Some r))"
proof (intro conjI impI)
  assume a: "groupSuggestions changes = Inr g"
  then have gi: "groupInto [] changes = Inr g" by (simp add: groupSuggestions_def)
  show "distinct (map fst g)" using groupInto_distinct [OF gi] by simp
  show grp: "\<forall>k grp. (k, grp) \<in> set g
             \<longleftrightarrow> grp = filter (\<lambda>c. docNameOf c = k) changes \<and> grp \<noteq> []"
    using groupSuggestions_groups [OF a] by blast
  show "\<forall>c \<in> set changes. \<exists>!k. \<exists>grp. (k, grp) \<in> set g \<and> c \<in> set grp"
  proof
    fix c assume c: "c \<in> set changes"
    show "\<exists>!k. \<exists>grp. (k, grp) \<in> set g \<and> c \<in> set grp"
    proof (rule ex1I [of _ "docNameOf c"])
      have "c \<in> set (filter (\<lambda>x. docNameOf x = docNameOf c) changes)" using c by simp
      moreover from this have "filter (\<lambda>x. docNameOf x = docNameOf c) changes \<noteq> []"
        by (metis empty_iff empty_set)
      ultimately show "\<exists>grp. (docNameOf c, grp) \<in> set g \<and> c \<in> set grp"
        using grp by blast
    next
      fix k assume "\<exists>grp. (k, grp) \<in> set g \<and> c \<in> set grp"
      then obtain grp where "(k, grp) \<in> set g" and m: "c \<in> set grp" by blast
      then have "grp = filter (\<lambda>x. docNameOf x = k) changes" using grp by blast
      with m show "k = docNameOf c" by simp
    qed
  qed
  show "sum_list (map (\<lambda>(k, grp). length grp) g) = length changes"
    using groupInto_sizes [OF gi] by simp
  show "mset (concat (map snd g)) = mset changes"
    using groupInto_mset [OF gi] by simp
next
  show "(\<exists>grouped. groupSuggestions changes = Inr grouped)
        \<longleftrightarrow> (\<forall>c \<in> set changes. docNameOf c \<notin> set objectPrototypeKeys)"
    unfolding groupSuggestions_def by (rule groupInto_succeeds)
next
  assume "fetchStatus (fst (generateGapReview env targetRegulatoryIds companyDocIds st)) = SUCCESS"
  then show "\<exists>r grouped new.
               challengeResult (fst (generateGapReview env targetRegulatoryIds companyDocIds st))
                 = Some r
               \<and> groupedSuggestions r = Some grouped
               \<and> groupSuggestions (suggested_changes r) = Inr grouped
               \<and> savedAnalyses (fst (generateGapReview env targetRegulatoryIds companyDocIds st))
                   = new # savedAnalyses st
               \<and> challengeAnalysisResult new = Some r"
    by (rule generateGapReview_success)
qed

theorem grouped_suggestions_witness:
  "groupSuggestions demoChanges = Inr demoGroups
   \<and> distinct (map fst demoGroups)
   \<and> sum_list (map (\<lambda>(k, grp). length grp) demoGroups) = length demoChanges
   \<and> mset (concat (map snd demoGroups)) = mset demoChanges
   \<and> fetchStatus (fst (generateGapReview
        (demoEnv True [demoRawChange (Some ''Policy A.pdf''), demoRawChange None] [])
        [''au-1''] [''doc-a''] demoGapState)) = SUCCESS
   \<and> (\<exists>r grouped new.
         challengeResult (fst (generateGapReview
             (demoEnv True [demoRawChange (Some ''Policy A.pdf''), demoRawChange None] [])
             [''au-1''] [''doc-a''] demoGapState)) = Some r
         \<and> groupedSuggestions r = Some grouped
         \<and> groupSuggestions (suggested_changes r) = Inr grouped
         \<and> savedAnalyses (fst (generateGapReview
              (demoEnv True [demoRawChange (Some ''Policy A.pdf''), demoRawChange None] [])
              [''au-1''] [''doc-a''] demoGapState)) = new # savedAnalyses demoGapState
         \<and> challengeAnalysisResult new = Some r)"
proof -
  note t = grouped_suggestions_partition [of demoChanges demoGroups
      "demoEnv True [demoRawChange (Some ''Policy A.pdf''), demoRawChange None] []"
      "[''au-1'']" "[''doc-a'']" demoGapState]
  note b = t [THEN conjunct1, THEN mp, OF demo_groups_eval]
  note e = t [THEN conjunct2, THEN conjunct2, THEN mp, OF demo_run_succeeds]
  note b1 = b [THEN conjunct1]
  note b4 = b [THEN conjunct2, THEN conjunct2, THEN conjunct2, THEN conjunct1]
  note b5 = b [THEN conjunct2, THEN conjunct2, THEN conjunct2, THEN conjunct2]
  show ?thesis
    by (intro conjI) (rule demo_groups_eval b1 b4 b5 demo_run_succeeds e)+
qed

end
